theory Spec2Isabelle
  imports Complex_Main
begin

section \<open>Floating-point values\<close>

text \<open>
  The program computes with IEEE doubles (Python \<open>float\<close>, \<open>numpy.float64\<close>).  A double
  is modelled as an exact real or one of the three special values; rounding, overflow
  and signed zeros are not modelled.  The operations below follow numpy: they never
  raise, a division by zero gives an infinity or NaN, and NaN propagates.
\<close>

datatype npfloat = Fin real | PInf | NInf | NaN

type_synonym ndarray = "npfloat list"

datatype py_error = IndexError | ValueError | TypeError | ZeroDivisionError

fun fneg :: "npfloat \<Rightarrow> npfloat" where
  "fneg (Fin x) = Fin (- x)"
| "fneg PInf = NInf"
| "fneg NInf = PInf"
| "fneg NaN = NaN"

fun fadd :: "npfloat \<Rightarrow> npfloat \<Rightarrow> npfloat" where
  "fadd (Fin x) (Fin y) = Fin (x + y)"
| "fadd NaN _ = NaN"
| "fadd _ NaN = NaN"
| "fadd PInf NInf = NaN"
| "fadd NInf PInf = NaN"
| "fadd PInf _ = PInf"
| "fadd _ PInf = PInf"
| "fadd NInf _ = NInf"
| "fadd _ NInf = NInf"

definition fsub :: "npfloat \<Rightarrow> npfloat \<Rightarrow> npfloat" where
  "fsub a b = fadd a (fneg b)"

fun fmul :: "npfloat \<Rightarrow> npfloat \<Rightarrow> npfloat" where
  "fmul (Fin x) (Fin y) = Fin (x * y)"
| "fmul NaN _ = NaN"
| "fmul _ NaN = NaN"
| "fmul (Fin x) PInf = (if 0 < x then PInf else if x < 0 then NInf else NaN)"
| "fmul (Fin x) NInf = (if 0 < x then NInf else if x < 0 then PInf else NaN)"
| "fmul PInf (Fin y) = (if 0 < y then PInf else if y < 0 then NInf else NaN)"
| "fmul NInf (Fin y) = (if 0 < y then NInf else if y < 0 then PInf else NaN)"
| "fmul PInf PInf = PInf"
| "fmul PInf NInf = NInf"
| "fmul NInf PInf = NInf"
| "fmul NInf NInf = PInf"

fun fdiv :: "npfloat \<Rightarrow> npfloat \<Rightarrow> npfloat" where
  "fdiv (Fin x) (Fin y) =
     (if y \<noteq> 0 then Fin (x / y)
      else if 0 < x then PInf else if x < 0 then NInf else NaN)"
| "fdiv NaN _ = NaN"
| "fdiv _ NaN = NaN"
| "fdiv (Fin x) PInf = Fin 0"
| "fdiv (Fin x) NInf = Fin 0"
| "fdiv PInf (Fin y) = (if 0 \<le> y then PInf else NInf)"
| "fdiv NInf (Fin y) = (if 0 \<le> y then NInf else PInf)"
| "fdiv PInf PInf = NaN"
| "fdiv PInf NInf = NaN"
| "fdiv NInf PInf = NaN"
| "fdiv NInf NInf = NaN"

fun fabs :: "npfloat \<Rightarrow> npfloat" where
  "fabs (Fin x) = Fin \<bar>x\<bar>"
| "fabs PInf = PInf"
| "fabs NInf = PInf"
| "fabs NaN = NaN"

fun fsqrt :: "npfloat \<Rightarrow> npfloat" where
  "fsqrt (Fin x) = (if 0 \<le> x then Fin (sqrt x) else NaN)"
| "fsqrt PInf = PInf"
| "fsqrt NInf = NaN"
| "fsqrt NaN = NaN"

text \<open>Comparisons: every comparison with NaN is false.\<close>

fun flt :: "npfloat \<Rightarrow> npfloat \<Rightarrow> bool" where
  "flt (Fin x) (Fin y) = (x < y)"
| "flt NaN _ = False"
| "flt _ NaN = False"
| "flt PInf _ = False"
| "flt _ NInf = False"
| "flt _ PInf = True"
| "flt NInf _ = True"

definition feq :: "npfloat \<Rightarrow> npfloat \<Rightarrow> bool" where
  "feq a b = (a = b \<and> a \<noteq> NaN)"

definition fle :: "npfloat \<Rightarrow> npfloat \<Rightarrow> bool" where
  "fle a b = (flt a b \<or> feq a b)"

fun is_finite :: "npfloat \<Rightarrow> bool" where
  "is_finite (Fin x) = True"
| "is_finite v = False"

text \<open>\<open>np.log\<close>: minus infinity at zero, NaN below it.\<close>

fun np_log :: "npfloat \<Rightarrow> npfloat" where
  "np_log (Fin x) = (if 0 < x then Fin (ln x) else if x = 0 then NInf else NaN)"
| "np_log PInf = PInf"
| "np_log NInf = NaN"
| "np_log NaN = NaN"

text \<open>
  \<open>b ** s\<close> for a finite base \<open>b\<close> (a Python float) and a \<open>numpy.float64\<close> exponent:
  numpy's power, which follows C's \<open>pow\<close>.
\<close>

fun fpow :: "real \<Rightarrow> npfloat \<Rightarrow> npfloat" where
  "fpow b (Fin y) =
     (if y = 0 \<or> b = 1 then Fin 1
      else if 0 < b then Fin (b powr y)
      else if b = 0 then (if 0 < y then Fin 0 else PInf)
      else if y = of_int \<lfloor>y\<rfloor> then Fin (b powi \<lfloor>y\<rfloor>)
      else NaN)"
| "fpow b PInf = (if 1 < \<bar>b\<bar> then PInf else if \<bar>b\<bar> = 1 then Fin 1 else Fin 0)"
| "fpow b NInf = (if 1 < \<bar>b\<bar> then Fin 0 else if \<bar>b\<bar> = 1 then Fin 1 else PInf)"
| "fpow b NaN = (if b = 1 then Fin 1 else NaN)"

section \<open>Arrays\<close>

text \<open>\<open>np.sum\<close> and \<open>np.mean\<close>; the mean of an empty array is \<open>0/0\<close>, NaN.\<close>

definition np_sum :: "ndarray \<Rightarrow> npfloat" where
  "np_sum xs = foldr fadd xs (Fin 0)"

definition np_mean :: "ndarray \<Rightarrow> npfloat" where
  "np_mean xs = fdiv (np_sum xs) (Fin (real (length xs)))"

text \<open>\<open>np.std\<close> (population standard deviation, \<open>ddof = 0\<close>).\<close>

definition np_std :: "ndarray \<Rightarrow> npfloat" where
  "np_std xs =
     (let m = np_mean xs
      in fsqrt (np_mean (map (\<lambda>x. fmul (fsub x m) (fsub x m)) xs)))"

text \<open>
  \<open>np.sort\<close>: ascending, NaN last.  The result is the sorted permutation of the input,
  computed here by insertion.
\<close>

fun sort_le :: "npfloat \<Rightarrow> npfloat \<Rightarrow> bool" where
  "sort_le (Fin x) (Fin y) = (x \<le> y)"
| "sort_le _ NaN = True"
| "sort_le NaN _ = False"
| "sort_le NInf _ = True"
| "sort_le _ NInf = False"
| "sort_le _ PInf = True"
| "sort_le PInf _ = False"

fun np_insort :: "npfloat \<Rightarrow> ndarray \<Rightarrow> ndarray" where
  "np_insort x [] = [x]"
| "np_insort x (y # ys) = (if sort_le x y then x # y # ys else y # np_insort x ys)"

definition np_sort :: "ndarray \<Rightarrow> ndarray" where
  "np_sort xs = foldr np_insort xs []"

text \<open>\<open>np.sort(data)[::-1]\<close>: the order statistics, largest first.\<close>

definition sort_desc :: "ndarray \<Rightarrow> ndarray" where
  "sort_desc xs = rev (np_sort xs)"

text \<open>Python indexing \<open>xs[k]\<close> and slicing \<open>xs[:k]\<close>; a negative \<open>k\<close> counts from the end.\<close>

definition py_index :: "'a list \<Rightarrow> int \<Rightarrow> py_error + 'a" where
  "py_index xs k =
     (let n = int (length xs); j = (if k < 0 then n + k else k)
      in if 0 \<le> j \<and> j < n then Inr (xs ! nat j) else Inl IndexError)"

definition py_slice_to :: "'a list \<Rightarrow> int \<Rightarrow> 'a list" where
  "py_slice_to xs k = (if k < 0 then take (nat (int (length xs) + k)) xs else take (nat k) xs)"

text \<open>\<open>np.arange(a, b)\<close> on integers.\<close>

definition np_arange :: "int \<Rightarrow> int \<Rightarrow> int list" where
  "np_arange a b = [a..b - 1]"

text \<open>A list comprehension whose body may raise: the first exception ends it.\<close>

fun collect :: "('e + 'a) list \<Rightarrow> 'e + 'a list" where
  "collect [] = Inr []"
| "collect (r # rs) =
     (case r of
        Inl e \<Rightarrow> Inl e
      | Inr v \<Rightarrow> (case collect rs of Inl e \<Rightarrow> Inl e | Inr vs \<Rightarrow> Inr (v # vs)))"

section \<open>Library functions\<close>

text \<open>
  \<open>scipy.ndimage.gaussian_filter1d(input, sigma)\<close> with its defaults: a normalised
  Gaussian kernel of radius \<open>int(4 * sigma + 0.5)\<close>, the input extended by reflection
  about its edges (\<open>d c b a | a b c d | d c b a\<close>).  The output has the length of the
  input.
\<close>

definition gaussian_kernel1d :: "real \<Rightarrow> nat \<Rightarrow> real list" where
  "gaussian_kernel1d sigma radius =
     (let phi = map (\<lambda>x. exp (- 0.5 / (sigma * sigma) * (real_of_int x)\<^sup>2))
                    [- int radius..int radius]
      in map (\<lambda>p. p / sum_list phi) phi)"

definition reflect_index :: "nat \<Rightarrow> int \<Rightarrow> nat" where
  "reflect_index n i =
     (let m = i mod (2 * int n) in nat (if m < int n then m else 2 * int n - 1 - m))"

definition gaussian_filter1d :: "ndarray \<Rightarrow> real \<Rightarrow> ndarray" where
  "gaussian_filter1d input sigma =
     (let n = length input;
          lw = nat \<lfloor>4 * sigma + 0.5\<rfloor>;
          weights = gaussian_kernel1d sigma lw
      in map (\<lambda>i. np_sum (map (\<lambda>j. fmul (Fin (weights ! j))
                                       (input ! reflect_index n (int i + int j - int lw)))
                              [0..<2 * lw + 1]))
             [0..<n])"

text \<open>
  \<open>np.gradient\<close> with unit spacing: one-sided differences at the two ends, central
  differences inside; it raises ValueError on fewer than two points.
\<close>

definition np_gradient :: "ndarray \<Rightarrow> py_error + ndarray" where
  "np_gradient f =
     (let n = length f
      in if n < 2 then Inl ValueError
         else Inr (map (\<lambda>i. if i = 0 then fsub (f ! 1) (f ! 0)
                            else if i = n - 1 then fsub (f ! (n - 1)) (f ! (n - 2))
                            else fdiv (fsub (f ! (i + 1)) (f ! (i - 1))) (Fin 2))
                       [0..<n]))"

text \<open>
  \<open>np.argmin\<close>: the index of the first NaN when there is one, of the first minimum
  otherwise; ValueError on an empty array.
\<close>

fun argmin_scan :: "npfloat \<Rightarrow> nat \<Rightarrow> nat \<Rightarrow> ndarray \<Rightarrow> nat" where
  "argmin_scan best bi i [] = bi"
| "argmin_scan best bi i (v # vs) =
     (if best \<noteq> NaN \<and> (v = NaN \<or> flt v best)
      then argmin_scan v i (Suc i) vs
      else argmin_scan best bi (Suc i) vs)"

definition np_argmin :: "ndarray \<Rightarrow> py_error + nat" where
  "np_argmin xs = (case xs of [] \<Rightarrow> Inl ValueError | v # vs \<Rightarrow> Inr (argmin_scan v 0 1 vs))"

text \<open>
  \<open>scipy.optimize.minimize(fun, x0, bounds = [(lo, hi)], method = 'L-BFGS-B')\<close> in
  one dimension and \<open>scipy.stats.genpareto.logpdf(data, c, loc, scale)\<close> are parameters
  of the program's functions.  A result carries \<open>success\<close>, \<open>x[0]\<close> and \<open>message\<close>.
\<close>

record optimize_result =
  opt_success :: bool
  opt_x :: npfloat
  opt_message :: string

type_synonym minimizer =
  "(npfloat \<Rightarrow> npfloat) \<Rightarrow> npfloat \<Rightarrow> npfloat \<times> npfloat \<Rightarrow> optimize_result"

type_synonym logpdf_fn = "ndarray \<Rightarrow> npfloat \<Rightarrow> npfloat \<Rightarrow> npfloat \<Rightarrow> py_error + ndarray"

text \<open>
  What the fitter relies on.  L-BFGS-B keeps every iterate within the bounds, so a run
  that reports success returns a finite point at or above the lower bound.  Nothing is
  asked of a run that fails (started at NaN, it returns NaN).
\<close>

definition feasible_on_success :: "minimizer \<Rightarrow> bool" where
  "feasible_on_success minimize =
     (\<forall>f x0 lo hi. opt_success (minimize f x0 (Fin lo, hi)) \<longrightarrow>
        (\<exists>r. opt_x (minimize f x0 (Fin lo, hi)) = Fin r \<and> lo \<le> r))"

text \<open>
  The log-density as scipy computes it, element by element and with masks, so that it
  raises on no array of floats.  With \<open>y = (x - loc) / scale\<close>: NaN where the shape is not
  finite, the scale is not positive or \<open>y\<close> is NaN; \<open>-inf\<close> outside the support
  \<open>0 \<le> y \<le> b\<close> (\<open>b = -1/c\<close> for \<open>c < 0\<close>, \<open>inf\<close> otherwise); inside it
  \<open>-xlog1py(c + 1, c y) / c - log(scale)\<close>, and \<open>-y - log(scale)\<close> at \<open>c = 0\<close>.
  \<open>xlog1py(a, y)\<close> is \<open>a * log1p(y)\<close>, and 0 where \<open>a = 0\<close> and \<open>y\<close> is not NaN.
\<close>

definition xlog1py :: "npfloat \<Rightarrow> npfloat \<Rightarrow> npfloat" where
  "xlog1py a y = (if a = Fin 0 \<and> y \<noteq> NaN then Fin 0 else fmul a (np_log (fadd (Fin 1) y)))"

definition genpareto_logpdf1 :: "npfloat \<Rightarrow> npfloat \<Rightarrow> npfloat \<Rightarrow> npfloat \<Rightarrow> npfloat" where
  "genpareto_logpdf1 x c loc scale =
     (let y = fdiv (fsub x loc) scale
      in case c of
           Fin cr \<Rightarrow>
             if flt (Fin 0) scale \<and> y \<noteq> NaN then
               (if fle (Fin 0) y \<and> fle y (if cr < 0 then Fin (- 1 / cr) else PInf)
                then fsub (if cr = 0 then fneg y
                           else fdiv (fneg (xlog1py (Fin (cr + 1)) (fmul (Fin cr) y))) (Fin cr))
                          (np_log scale)
                else NInf)
             else NaN
         | _ \<Rightarrow> NaN)"

definition genpareto_logpdf :: logpdf_fn where
  "genpareto_logpdf data c loc scale = Inr (map (\<lambda>x. genpareto_logpdf1 x c loc scale) data)"

section \<open>Configuration (\<open>generate_data.py\<close>)\<close>

definition LOSS_THRESHOLD :: nat where "LOSS_THRESHOLD = 30"
definition HILL_K_MIN :: int where "HILL_K_MIN = 5"
definition HILL_SIGMA :: real where "HILL_SIGMA = 2"
definition SELECT_K_SIGMA :: real where "SELECT_K_SIGMA = 5"
definition GPD_ALPHA :: real where "GPD_ALPHA = 0.95"
definition MIN_EXCEEDANCES :: nat where "MIN_EXCEEDANCES = 5"

section \<open>Hill estimator\<close>

text \<open>
  The expression \<open>np.mean(np.log(data[:k]) - np.log(data[k]))\<close>, which both files
  evaluate on the descending-sorted data (\<open>hill_estimator\<close>, \<open>estimate_hill_shape\<close>,
  \<open>compute_final_xi\<close>).  \<open>data[k]\<close> raises IndexError when \<open>k\<close> is out of range.
\<close>

definition mean_log_excess :: "ndarray \<Rightarrow> int \<Rightarrow> py_error + npfloat" where
  "mean_log_excess data_sorted k =
     (case py_index data_sorted k of
        Inl e \<Rightarrow> Inl e
      | Inr xk \<Rightarrow>
          Inr (np_mean (map (\<lambda>v. fsub (np_log v) (np_log xk)) (py_slice_to data_sorted k))))"

text \<open>The list comprehension of both \<open>hill_estimator\<close> functions.\<close>

definition hill_curve :: "ndarray \<Rightarrow> int list \<Rightarrow> py_error + ndarray" where
  "hill_curve data_sorted k_vals =
     collect (map (\<lambda>k. if k < int (length data_sorted)
                       then mean_log_excess data_sorted k
                       else Inr NaN) k_vals)"

text \<open>\<open>smoothed_Hill_estimator.py\<close>, \<open>hill_estimator\<close>: the raw Hill curve.\<close>

definition hill_estimator_raw :: "ndarray \<Rightarrow> int list \<Rightarrow> py_error + ndarray" where
  "hill_estimator_raw data k_values = hill_curve (sort_desc data) k_values"

text \<open>\<open>generate_data.py\<close>, \<open>hill_estimator\<close>: the same curve, smoothed.\<close>

definition hill_estimator :: "ndarray \<Rightarrow> int list \<Rightarrow> py_error + ndarray" where
  "hill_estimator data k_vals =
     (case hill_curve (sort_desc data) k_vals of
        Inl e \<Rightarrow> Inl e
      | Inr curve \<Rightarrow> Inr (gaussian_filter1d curve HILL_SIGMA))"

definition select_k :: "ndarray \<Rightarrow> int list \<Rightarrow> py_error + int" where
  "select_k smoothed k_vals =
     (case np_gradient smoothed of
        Inl e \<Rightarrow> Inl e
      | Inr g \<Rightarrow>
          (case np_argmin (gaussian_filter1d (map fabs g) SELECT_K_SIGMA) of
             Inl e \<Rightarrow> Inl e
           | Inr i \<Rightarrow> py_index k_vals (int i)))"

definition estimate_hill_shape :: "ndarray \<Rightarrow> int \<Rightarrow> py_error + npfloat" where
  "estimate_hill_shape data k =
     (let data_sorted = sort_desc data
      in if int (length data_sorted) \<le> k \<or> k \<le> 0 then Inl ValueError
         else mean_log_excess data_sorted k)"

text \<open>
  \<open>k_vals = np.arange(HILL_K_MIN, min(len(...) - 10, 150))\<close> (lines 104 and 136), and
  \<open>select_k(hill_estimator(data, k_vals), k_vals)\<close> (lines 107-108 and 140-141).
\<close>

definition hill_k_vals :: "nat \<Rightarrow> int list" where
  "hill_k_vals n = np_arange HILL_K_MIN (min (int n - 10) 150)"

definition selected_k :: "ndarray \<Rightarrow> int list \<Rightarrow> py_error + int" where
  "selected_k data k_vals =
     (case hill_estimator data k_vals of
        Inl e \<Rightarrow> Inl e
      | Inr smoothed \<Rightarrow> select_k smoothed k_vals)"

section \<open>GPD fit\<close>

definition gpd_log_likelihood_fixed_shape ::
  "logpdf_fn \<Rightarrow> npfloat \<Rightarrow> ndarray \<Rightarrow> npfloat \<Rightarrow> npfloat" where
  "gpd_log_likelihood_fixed_shape logpdf scale data shape =
     (if fle scale (Fin 0) then PInf
      else (case logpdf data shape (Fin 0) scale of
              Inl e \<Rightarrow> PInf
            | Inr ys \<Rightarrow> fneg (np_sum ys)))"

definition fit_gpd_mle_fixed_shape ::
  "minimizer \<Rightarrow> logpdf_fn \<Rightarrow> ndarray \<Rightarrow> npfloat \<Rightarrow> npfloat option" where
  "fit_gpd_mle_fixed_shape minimize logpdf data shape =
     (if length data < MIN_EXCEEDANCES then None
      else let initial_guess = np_std data;
               bounds = (Fin (1 / 10 ^ 6), PInf);
               result = minimize (\<lambda>scale. gpd_log_likelihood_fixed_shape logpdf scale data shape)
                                 initial_guess bounds
           in if opt_success result then Some (opt_x result) else None)"

section \<open>Risk measures\<close>

text \<open>\<open>compute_gpd_risks_mle\<close>, line 101: \<open>data[data > threshold] - threshold\<close>.\<close>

definition exceedances :: "ndarray \<Rightarrow> npfloat \<Rightarrow> ndarray" where
  "exceedances data threshold =
     map (\<lambda>v. fsub v threshold) (filter (\<lambda>v. flt threshold v) data)"

text \<open>
  \<open>compute_gpd_risks_mle\<close>, lines 101-109: the exceedances and the shape handed to the
  scale fit, or \<open>None\<close> where the function returns \<open>(None, None)\<close> early.
\<close>

definition gpd_fit_inputs :: "ndarray \<Rightarrow> npfloat \<Rightarrow> py_error + (ndarray \<times> npfloat) option" where
  "gpd_fit_inputs data threshold =
     (let exceed = exceedances data threshold
      in if length exceed < MIN_EXCEEDANCES then Inr None
         else let k_vals = hill_k_vals (length exceed)
              in if length k_vals < 2 then Inr None
                 else (case selected_k exceed k_vals of
                         Inl e \<Rightarrow> Inl e
                       | Inr k_star \<Rightarrow>
                           (case estimate_hill_shape exceed k_star of
                              Inl e \<Rightarrow> Inl e
                            | Inr shape \<Rightarrow> Inr (Some (exceed, shape)))))"

text \<open>
  \<open>compute_gpd_risks_mle\<close>, lines 113-123: VaR and ES from a fitted scale.  \<open>1 / q\<close>
  divides Python floats and raises on zero; the rest is numpy arithmetic.
\<close>

definition gpd_var_es ::
  "npfloat \<Rightarrow> npfloat \<Rightarrow> npfloat \<Rightarrow> real \<Rightarrow> py_error + npfloat \<times> npfloat" where
  "gpd_var_es threshold shape scale alpha =
     (let q = 1 - alpha
      in if feq shape (Fin 0) then
           (if q = 0 then Inl ZeroDivisionError
            else let var = fadd threshold (fmul scale (np_log (Fin (1 / q))));
                     es = fadd threshold (fmul scale (fadd (np_log (Fin (1 / q))) (Fin 1)))
                 in Inr (var, es))
         else if flt (Fin 0) shape then
           (if q = 0 then Inl ZeroDivisionError
            else let var = fadd threshold
                             (fmul (fdiv scale shape) (fsub (fpow (1 / q) shape) (Fin 1)));
                     es = fadd threshold
                            (fdiv (fadd (fsub var threshold) scale) (fsub (Fin 1) shape))
                 in Inr (var, es))
         else
           (if q = 0 then Inl ZeroDivisionError
            else let var = fadd threshold
                             (fmul (fdiv scale shape) (fsub (fpow (1 / q) shape) (Fin 1)));
                     es = fadd threshold
                            (fdiv (fadd (fsub var threshold) scale) (fsub (Fin 1) shape))
                 in Inr (var, es)))"

definition compute_gpd_risks_mle ::
  "minimizer \<Rightarrow> logpdf_fn \<Rightarrow> ndarray \<Rightarrow> npfloat \<Rightarrow> real
     \<Rightarrow> py_error + npfloat option \<times> npfloat option" where
  "compute_gpd_risks_mle minimize logpdf data threshold alpha =
     (case gpd_fit_inputs data threshold of
        Inl e \<Rightarrow> Inl e
      | Inr None \<Rightarrow> Inr (None, None)
      | Inr (Some (exceed, shape)) \<Rightarrow>
          (case fit_gpd_mle_fixed_shape minimize logpdf exceed shape of
             None \<Rightarrow> Inr (None, None)
           | Some scale \<Rightarrow>
               (case gpd_var_es threshold shape scale alpha of
                  Inl e \<Rightarrow> Inl e
                | Inr (var, es) \<Rightarrow> Inr (Some var, Some es))))"

text \<open>
  \<open>smoothed_Hill_estimator.py\<close>, \<open>estimate_var_es_gpd\<close>; \<open>genpareto.fit\<close> is a
  parameter returning \<open>(shape, loc, scale)\<close>.
\<close>

definition estimate_var_es_gpd ::
  "(ndarray \<Rightarrow> npfloat \<times> npfloat \<times> npfloat) \<Rightarrow> ndarray \<Rightarrow> npfloat \<Rightarrow> real
     \<Rightarrow> py_error + npfloat \<times> npfloat \<times> npfloat \<times> npfloat" where
  "estimate_var_es_gpd genpareto_fit data threshold confidence_level =
     (let exceed = exceedances data threshold
      in if length exceed < 2 then Inl ValueError
         else (case genpareto_fit exceed of
                 (shape, loc, scale) \<Rightarrow>
                   (let prob = 1 - confidence_level
                    in if prob = 0 then Inl ZeroDivisionError
                       else let var = fadd threshold
                                        (fmul (fdiv scale shape)
                                              (fsub (fpow (1 / prob) shape) (Fin 1)));
                                es = (if fle (Fin 1) shape then PInf
                                      else fadd var (fdiv (fsub scale (fmul shape threshold))
                                                          (fsub (Fin 1) shape)))
                            in Inr (var, es, shape, scale))))"

section \<open>Per-ticker pipeline and ranking (\<open>compute_risks\<close>)\<close>

record price_row =
  Open :: npfloat
  Close :: npfloat

type_synonym price_frame = "price_row list"

record ticker_row =
  Company_Name :: string
  meta_Ticker :: string

record risk_record =
  Name :: string
  Ticker :: string
  Average_Return :: npfloat
  VaR :: "npfloat option"
  ES :: "npfloat option"

record summary_row =
  risk :: risk_record
  Average_Return_Rank :: "int option"
  VaR_Rank :: "int option"
  ES_Rank :: "int option"

datatype ticker_outcome =
  Insufficient_loss | Insufficient_k | Failed py_error | Recorded risk_record

text \<open>Line 131: \<open>(df["Close"] - df["Open"]) / df["Open"] * 100\<close>.\<close>

definition daily_returns :: "price_frame \<Rightarrow> ndarray" where
  "daily_returns df =
     map (\<lambda>r. fmul (fdiv (fsub (Close r) (Open r)) (Open r)) (Fin 100)) df"

text \<open>Line 132: \<open>-daily_ret[daily_ret < 0].dropna().values\<close>.\<close>

definition loss_series :: "ndarray \<Rightarrow> ndarray" where
  "loss_series daily_ret =
     map fneg (filter (\<lambda>v. v \<noteq> NaN) (filter (\<lambda>v. flt v (Fin 0)) daily_ret))"

text \<open>pandas' \<open>Series.mean\<close> skips NaN.\<close>

definition pd_mean :: "ndarray \<Rightarrow> npfloat" where
  "pd_mean xs = np_mean (filter (\<lambda>v. v \<noteq> NaN) xs)"

text \<open>Line 141: \<open>np.sort(losses)[::-1][select_k(smoothed, k_vals)]\<close>.\<close>

definition loss_threshold :: "ndarray \<Rightarrow> int list \<Rightarrow> py_error + npfloat" where
  "loss_threshold losses k_vals =
     (case selected_k losses k_vals of
        Inl e \<Rightarrow> Inl e
      | Inr k \<Rightarrow> py_index (sort_desc losses) k)"

definition lookup_name :: "ticker_row list \<Rightarrow> string \<Rightarrow> string" where
  "lookup_name metadata ticker =
     (case filter (\<lambda>m. meta_Ticker m = ticker) metadata of
        [] \<Rightarrow> ticker
      | m # _ \<Rightarrow> Company_Name m)"

text \<open>The body of the loop over tickers; an exception is caught and the ticker dropped.\<close>

definition process_ticker ::
  "minimizer \<Rightarrow> logpdf_fn \<Rightarrow> ticker_row list \<Rightarrow> string \<Rightarrow> price_frame \<Rightarrow> ticker_outcome" where
  "process_ticker minimize logpdf metadata ticker df =
     (let daily_ret = daily_returns df;
          losses = loss_series daily_ret
      in if length losses < LOSS_THRESHOLD then Insufficient_loss
         else let k_vals = hill_k_vals (length losses)
              in if length k_vals < 2 then Insufficient_k
                 else (case loss_threshold losses k_vals of
                         Inl e \<Rightarrow> Failed e
                       | Inr threshold \<Rightarrow>
                           (case compute_gpd_risks_mle minimize logpdf losses threshold GPD_ALPHA of
                              Inl e \<Rightarrow> Failed e
                            | Inr (var, es) \<Rightarrow>
                                Recorded \<lparr>Name = lookup_name metadata ticker,
                                          Ticker = ticker,
                                          Average_Return = pd_mean daily_ret,
                                          VaR = var,
                                          ES = es\<rparr>)))"

text \<open>
  \<open>Series.rank(ascending, na_option = 'bottom')\<close> with the default tie method
  \<open>average\<close>: a value's rank is the mean of the positions its ties occupy in the sorted
  order; the missing values (NaN) come after all others and tie with each other.
\<close>

definition pd_rank :: "bool \<Rightarrow> ndarray \<Rightarrow> real list" where
  "pd_rank ascending col =
     (let valid = filter (\<lambda>v. v \<noteq> NaN) col;
          n_na = length col - length valid
      in map (\<lambda>v. if v = NaN then real (length valid) + (real n_na + 1) / 2
                  else real (length (filter (\<lambda>w. if ascending then flt w v else flt v w) valid))
                       + (real (length (filter (\<lambda>w. w = v) valid)) + 1) / 2)
             col)"

text \<open>\<open>astype('Int64')\<close> on floats: TypeError unless every value is a whole number.\<close>

definition astype_Int64 :: "real list \<Rightarrow> py_error + int option list" where
  "astype_Int64 xs =
     (if list_all (\<lambda>v. v = of_int \<lfloor>v\<rfloor>) xs then Inr (map (\<lambda>v. Some \<lfloor>v\<rfloor>) xs)
      else Inl TypeError)"

text \<open>A DataFrame column holding \<open>None\<close>: the entry is missing (NaN).\<close>

definition column :: "npfloat option list \<Rightarrow> ndarray" where
  "column vs = map (\<lambda>v. case v of None \<Rightarrow> NaN | Some w \<Rightarrow> w) vs"

text \<open>Lines 154-158: the summary frame and its three rank columns.\<close>

definition rank_summary :: "risk_record list \<Rightarrow> py_error + summary_row list" where
  "rank_summary records =
     (if records = [] then Inr []
      else (case astype_Int64 (pd_rank True (map Average_Return records)) of
              Inl e \<Rightarrow> Inl e
            | Inr ar \<Rightarrow>
                (case astype_Int64 (pd_rank False (column (map VaR records))) of
                   Inl e \<Rightarrow> Inl e
                 | Inr vr \<Rightarrow>
                     (case astype_Int64 (pd_rank False (column (map ES records))) of
                        Inl e \<Rightarrow> Inl e
                      | Inr er \<Rightarrow>
                          Inr (map (\<lambda>(r, a, v, e).
                                      \<lparr>risk = r, Average_Return_Rank = a,
                                       VaR_Rank = v, ES_Rank = e\<rparr>)
                                   (zip records (zip ar (zip vr er))))))))"

definition compute_risks ::
  "minimizer \<Rightarrow> logpdf_fn \<Rightarrow> (string \<times> price_frame) list \<Rightarrow> ticker_row list
     \<Rightarrow> py_error + summary_row list" where
  "compute_risks minimize logpdf prices metadata =
     rank_summary
       (concat (map (\<lambda>(ticker, df).
                       case process_ticker minimize logpdf metadata ticker df of
                         Recorded r \<Rightarrow> [r]
                       | _ \<Rightarrow> [])
                    prices))"

section \<open>The spec's reading of the threshold\<close>

text \<open>
  The spec's words: the \<open>k\<close>-th largest value of a series, that is the \<open>k\<close>-th element
  of the descending-sorted series, counting from 1.
\<close>

definition kth_largest :: "ndarray \<Rightarrow> int \<Rightarrow> npfloat" where
  "kth_largest xs k = sort_desc xs ! nat (k - 1)"

section \<open>Inputs of the worked examples\<close>

text \<open>A minimizer that stops at once, at a given point and with a given outcome, and
  two log-densities: one that returns zeros, one that raises.\<close>

definition constant_minimizer :: "bool \<Rightarrow> npfloat \<Rightarrow> minimizer" where
  "constant_minimizer ok v f x0 bounds = \<lparr>opt_success = ok, opt_x = v, opt_message = []\<rparr>"

text \<open>A minimizer that moves a finite start up to the lower bound and stops there; it
  reports success when the objective is finite at that point.\<close>

definition probe_minimizer :: minimizer where
  "probe_minimizer f x0 bounds =
     (case (x0, fst bounds) of
        (Fin x, Fin lo) \<Rightarrow>
          \<lparr>opt_success = is_finite (f (Fin (max x lo))), opt_x = Fin (max x lo),
           opt_message = []\<rparr>
      | _ \<Rightarrow> \<lparr>opt_success = False, opt_x = x0, opt_message = []\<rparr>)"

definition zero_logpdf :: logpdf_fn where
  "zero_logpdf data c loc scale = Inr (map (\<lambda>_. Fin 0) data)"

definition raising_logpdf :: logpdf_fn where
  "raising_logpdf data c loc scale = Inl ValueError"

text \<open>
  Thirty losses: seventeen above 100 (by 64, 32, 16, 8, 4, 2, and eleven times by 1),
  thirteen equal to 100.
\<close>

definition example_losses :: ndarray where
  "example_losses =
     map Fin ([164, 132, 116, 108, 104, 102] @ replicate 11 101 @ replicate 13 100)"

text \<open>Thirty distinct losses, 1 to 30.\<close>

definition distinct_losses :: ndarray where
  "distinct_losses = map (\<lambda>i. Fin (real i)) [1..<31]"

text \<open>The three records of the spec's ranking example, and three records of which two
  have no VaR and ES.\<close>

definition example_records :: "risk_record list" where
  "example_records =
     [\<lparr>Name = ''A'', Ticker = ''A'', Average_Return = Fin 1, VaR = Some (Fin 5), ES = Some (Fin 4)\<rparr>,
      \<lparr>Name = ''B'', Ticker = ''B'', Average_Return = Fin 3, VaR = Some (Fin 2), ES = Some (Fin 1)\<rparr>,
      \<lparr>Name = ''C'', Ticker = ''C'', Average_Return = Fin 2, VaR = Some (Fin 8), ES = Some (Fin 9)\<rparr>]"

definition records_two_failed :: "risk_record list" where
  "records_two_failed =
     [\<lparr>Name = ''A'', Ticker = ''A'', Average_Return = Fin 1, VaR = Some (Fin 5), ES = Some (Fin 4)\<rparr>,
      \<lparr>Name = ''B'', Ticker = ''B'', Average_Return = Fin 3, VaR = None, ES = None\<rparr>,
      \<lparr>Name = ''C'', Ticker = ''C'', Average_Return = Fin 2, VaR = None, ES = None\<rparr>]"

definition records_one_failed :: "risk_record list" where
  "records_one_failed =
     [\<lparr>Name = ''A'', Ticker = ''A'', Average_Return = Fin 1, VaR = Some (Fin 5), ES = Some (Fin 4)\<rparr>,
      \<lparr>Name = ''B'', Ticker = ''B'', Average_Return = Fin 3, VaR = None, ES = None\<rparr>,
      \<lparr>Name = ''C'', Ticker = ''C'', Average_Return = Fin 2, VaR = Some (Fin 8), ES = Some (Fin 9)\<rparr>]"

text \<open>A price frame of \<open>n\<close> days, each opening at 100 and closing at 99.\<close>

definition falling_prices :: "nat \<Rightarrow> price_frame" where
  "falling_prices n = replicate n \<lparr>Open = Fin 100, Close = Fin 99\<rparr>"

section \<open>Basic facts about the array operations\<close>

lemma np_sum_Fin: "np_sum (map Fin xs) = Fin (sum_list xs)"
  by (induction xs) (simp_all add: np_sum_def)

lemma np_mean_Fin:
  "np_mean (map Fin xs) = (if xs = [] then NaN else Fin (sum_list xs / real (length xs)))"
  by (simp add: np_mean_def np_sum_Fin)

lemma length_np_insort: "length (np_insort x xs) = Suc (length xs)"
  by (induction xs) simp_all

lemma length_np_sort: "length (np_sort xs) = length xs"
  unfolding np_sort_def by (induction xs) (simp_all add: length_np_insort)

lemma length_sort_desc: "length (sort_desc xs) = length xs"
  by (simp add: sort_desc_def length_np_sort)

lemma set_np_insort: "set (np_insort x xs) = insert x (set xs)"
  by (induction xs) auto

lemma set_np_sort: "set (np_sort xs) = set xs"
  unfolding np_sort_def by (induction xs) (simp_all add: set_np_insort)

lemma set_sort_desc: "set (sort_desc xs) = set xs"
  by (simp add: sort_desc_def set_np_sort)

lemma distinct_np_insort: "distinct (np_insort x xs) = (x \<notin> set xs \<and> distinct xs)"
  by (induction xs) (auto simp: set_np_insort)

lemma distinct_np_sort: "distinct (np_sort xs) = distinct xs"
  unfolding np_sort_def
  by (induction xs) (simp_all add: distinct_np_insort set_np_sort[unfolded np_sort_def])

lemma distinct_sort_desc: "distinct (sort_desc xs) = distinct xs"
  by (simp add: sort_desc_def distinct_np_sort)

lemma np_insort_Fin: "np_insort (Fin x) (map Fin ys) = map Fin (insort x ys)"
  by (induction ys) simp_all

lemma np_sort_Fin: "np_sort (map Fin xs) = map Fin (sort xs)"
  unfolding np_sort_def
  by (induction xs) (simp_all add: np_insort_Fin sort_key_def[symmetric] )

lemma sort_desc_Fin: "sort_desc (map Fin xs) = map Fin (rev (sort xs))"
  by (simp add: sort_desc_def np_sort_Fin rev_map)

lemma collect_map_Inr:
  "(\<And>x. x \<in> set xs \<Longrightarrow> f x = Inr (g x)) \<Longrightarrow> collect (map f xs) = Inr (map g xs)"
  by (induction xs) simp_all

lemma length_gaussian_filter1d: "length (gaussian_filter1d xs s) = length xs"
  by (simp add: gaussian_filter1d_def Let_def)

lemma np_gradient_ok:
  "2 \<le> length f \<Longrightarrow> \<exists>g. np_gradient f = Inr g \<and> length g = length f"
  by (simp add: np_gradient_def Let_def)

lemma argmin_scan_bound:
  "bi < i \<Longrightarrow> argmin_scan best bi i vs < i + length vs"
proof (induction vs arbitrary: best bi i)
  case Nil
  then show ?case by simp
next
  case (Cons v vs)
  have a: "argmin_scan v i (Suc i) vs < Suc i + length vs"
    by (rule Cons.IH) simp
  have b: "argmin_scan best bi (Suc i) vs < Suc i + length vs"
    by (rule Cons.IH) (use Cons.prems in simp)
  show ?case using a b by simp
qed

lemma np_argmin_ok:
  "xs \<noteq> [] \<Longrightarrow> \<exists>i. np_argmin xs = Inr i \<and> i < length xs"
  using argmin_scan_bound[of 0 1]
  by (cases xs) (auto simp: np_argmin_def)

section \<open>The raw Hill curve\<close>

lemma py_index_nonneg:
  "0 \<le> k \<Longrightarrow> k < int (length xs) \<Longrightarrow> py_index xs k = Inr (xs ! nat k)"
  by (simp add: py_index_def Let_def)

lemma py_slice_to_nonneg: "0 \<le> k \<Longrightarrow> py_slice_to xs k = take (nat k) xs"
  by (simp add: py_slice_to_def)

lemma mean_log_excess_nonneg:
  "0 \<le> k \<Longrightarrow> k < int (length sd) \<Longrightarrow>
   mean_log_excess sd k =
     Inr (np_mean (map (\<lambda>v. fsub (np_log v) (np_log (sd ! nat k))) (take (nat k) sd)))"
  by (simp add: mean_log_excess_def py_index_nonneg py_slice_to_nonneg)

lemma hill_curve_nonneg:
  assumes "\<And>k. k \<in> set ks \<Longrightarrow> 0 \<le> k"
  shows "hill_curve sd ks =
           Inr (map (\<lambda>k. if k < int (length sd)
                          then np_mean (map (\<lambda>v. fsub (np_log v) (np_log (sd ! nat k)))
                                            (take (nat k) sd))
                          else NaN) ks)"
  unfolding hill_curve_def
  by (rule collect_map_Inr) (simp add: mean_log_excess_nonneg assms)

lemma sum_list_map_diff_const:
  "sum_list (map (\<lambda>x. f x - (c::real)) ys) = sum_list (map f ys) - real (length ys) * c"
  by (induction ys) (simp_all add: algebra_simps)

lemma log_excess_Fin:
  assumes "\<And>x. x \<in> set ys \<Longrightarrow> 0 < x" and "0 < c"
  shows "map (\<lambda>v. fsub (np_log v) (np_log (Fin c))) (map Fin ys) =
         map Fin (map (\<lambda>x. ln x - ln c) ys)"
  using assms by (induction ys) (simp_all add: fsub_def)

lemma mean_log_excess_pos:
  assumes pos: "\<And>x. x \<in> set sd \<Longrightarrow> 0 < x" and k1: "1 \<le> k" and klt: "k < int (length sd)"
  shows "mean_log_excess (map Fin sd) k =
           Inr (Fin (sum_list (map ln (take (nat k) sd)) / of_int k - ln (sd ! nat k)))"
proof -
  let ?c = "sd ! nat k"
  let ?ys = "take (nat k) sd"
  have c: "0 < ?c" using pos klt k1 by (simp add: nat_less_iff)
  have ys: "\<And>x. x \<in> set ?ys \<Longrightarrow> 0 < x" using pos by (auto dest: in_set_takeD)
  have len: "length ?ys = nat k" using klt k1 by simp
  have ne: "?ys \<noteq> []" using len k1 by auto
  have "mean_log_excess (map Fin sd) k =
          Inr (np_mean (map (\<lambda>v. fsub (np_log v) (np_log (Fin ?c))) (map Fin ?ys)))"
    using k1 klt by (simp add: mean_log_excess_nonneg take_map)
  also have "\<dots> = Inr (np_mean (map Fin (map (\<lambda>x. ln x - ln ?c) ?ys)))"
    by (simp only: log_excess_Fin[OF ys c])
  also have "\<dots> = Inr (Fin (sum_list (map (\<lambda>x. ln x - ln ?c) ?ys) / real (length ?ys)))"
    using ne by (simp only: np_mean_Fin) simp
  also have "sum_list (map (\<lambda>x. ln x - ln ?c) ?ys) / real (length ?ys) =
             sum_list (map ln ?ys) / of_int k - ln ?c"
  proof -
    have r: "real (length ?ys) = of_int k" using len k1 by simp
    show ?thesis
      unfolding sum_list_map_diff_const r using k1 by (simp add: diff_divide_distrib)
  qed
  finally show ?thesis .
qed

text \<open>
  Claim C5.  For an array of positive losses and a list of candidate order statistics
  \<open>k\<close> (each at least 1, as an order statistic is), the raw Hill curve of
  \<open>smoothed_Hill_estimator.py\<close> has one entry per candidate; the entry for \<open>k\<close> is the
  mean of the logarithms of the \<open>k\<close> largest losses minus the logarithm of the next one
  when \<open>k + 1\<close> is at most the length of the series, hence finite, and it is NaN exactly
  when \<open>k + 1\<close> exceeds the length.
\<close>

theorem raw_hill_curve:
  assumes pos: "\<forall>x\<in>set xs. 0 < x" and kpos: "\<forall>k\<in>set ks. 1 \<le> k"
  shows "hill_estimator_raw (map Fin xs) ks =
           Inr (map (\<lambda>k. if k < int (length xs)
                          then Fin (sum_list (map ln (take (nat k) (rev (sort xs)))) / of_int k
                                    - ln (rev (sort xs) ! nat k))
                          else NaN) ks)"
proof -
  let ?sd = "rev (sort xs)"
  have sdpos: "\<And>x. x \<in> set ?sd \<Longrightarrow> 0 < x" using pos by simp
  show ?thesis
    unfolding hill_estimator_raw_def hill_curve_def sort_desc_Fin
  proof (rule collect_map_Inr)
    fix k assume "k \<in> set ks"
    then have k1: "1 \<le> k" using kpos by blast
    show "(if k < int (length (map Fin ?sd)) then mean_log_excess (map Fin ?sd) k else Inr NaN) =
          Inr (if k < int (length xs)
               then Fin (sum_list (map ln (take (nat k) ?sd)) / of_int k - ln (?sd ! nat k))
               else NaN)"
      using mean_log_excess_pos[of ?sd k] sdpos k1 by simp
  qed
qed

text \<open>The curve of the losses 1 and 2 at \<open>k = 1\<close> and \<open>k = 2\<close>.\<close>

theorem raw_hill_curve_witness:
  "hill_estimator_raw [Fin 1, Fin 2] [1, 2] = Inr [Fin (ln 2), NaN]"
  using raw_hill_curve[of "[1, 2]" "[1, 2]"] by simp

section \<open>The stages never raise on their own candidates\<close>

lemma set_np_arange: "set (np_arange a b) = {k. a \<le> k \<and> k < b}"
  by (auto simp: np_arange_def)

lemma length_np_arange: "length (np_arange a b) = nat (b - a)"
  by (simp add: np_arange_def)

lemma set_hill_k_vals:
  "set (hill_k_vals n) = {k. 5 \<le> k \<and> k < int n - 10 \<and> k < 150}"
  by (auto simp: hill_k_vals_def set_np_arange HILL_K_MIN_def)

lemma length_hill_k_vals: "length (hill_k_vals n) = nat (min (int n - 10) 150 - 5)"
  by (simp add: hill_k_vals_def length_np_arange HILL_K_MIN_def)

lemma hill_k_vals_short: "length (hill_k_vals n) < 2 \<longleftrightarrow> n \<le> 16"
  by (auto simp: length_hill_k_vals)

lemma hill_curve_total:
  assumes "\<And>k. k \<in> set ks \<Longrightarrow> 0 \<le> k"
  shows "\<exists>c. hill_curve sd ks = Inr c \<and> length c = length ks"
  by (simp add: hill_curve_nonneg[OF assms])

lemma hill_estimator_total:
  assumes "\<And>k. k \<in> set ks \<Longrightarrow> 0 \<le> k"
  shows "\<exists>s. hill_estimator data ks = Inr s \<and> length s = length ks"
  using hill_curve_total[where sd="sort_desc data" and ks=ks] assms
  by (auto simp: hill_estimator_def length_gaussian_filter1d)

lemma select_k_total:
  assumes "length smoothed = length k_vals" and "2 \<le> length k_vals"
  shows "\<exists>k. select_k smoothed k_vals = Inr k \<and> k \<in> set k_vals"
proof -
  obtain g where g: "np_gradient smoothed = Inr g" "length g = length smoothed"
    using np_gradient_ok[of smoothed] assms by auto
  let ?s = "gaussian_filter1d (map fabs g) SELECT_K_SIGMA"
  have len: "length ?s = length k_vals"
    using g assms by (simp add: length_gaussian_filter1d)
  then have "?s \<noteq> []" using assms by auto
  then obtain i where i: "np_argmin ?s = Inr i" "i < length ?s"
    using np_argmin_ok by blast
  have "select_k smoothed k_vals = Inr (k_vals ! i)"
    using g i len by (simp add: select_k_def py_index_nonneg)
  moreover have "k_vals ! i \<in> set k_vals" using i len by simp
  ultimately show ?thesis by blast
qed

lemma selected_k_total:
  assumes "2 \<le> length (hill_k_vals n)"
  shows "\<exists>k. selected_k data (hill_k_vals n) = Inr k \<and> k \<in> set (hill_k_vals n)"
proof -
  have nn: "\<And>k. k \<in> set (hill_k_vals n) \<Longrightarrow> 0 \<le> k"
    by (simp add: set_hill_k_vals)
  obtain s where s: "hill_estimator data (hill_k_vals n) = Inr s"
      "length s = length (hill_k_vals n)"
    using hill_estimator_total[OF nn] by blast
  show ?thesis
    using select_k_total[OF s(2) assms] s(1) by (simp add: selected_k_def)
qed

lemma estimate_hill_shape_valid:
  assumes "0 < k" and "k < int (length data)"
  shows "estimate_hill_shape data k = mean_log_excess (sort_desc data) k"
    and "\<exists>s. estimate_hill_shape data k = Inr s"
  using assms
  by (simp_all add: estimate_hill_shape_def Let_def length_sort_desc mean_log_excess_nonneg)

lemma gpd_fit_inputs_none:
  "length (exceedances data threshold) \<le> 16 \<Longrightarrow> gpd_fit_inputs data threshold = Inr None"
  using hill_k_vals_short[of "length (exceedances data threshold)"]
  by (simp add: gpd_fit_inputs_def Let_def)

lemma gpd_fit_inputs_some:
  assumes "17 \<le> length (exceedances data threshold)"
  shows "\<exists>k shape. k \<in> set (hill_k_vals (length (exceedances data threshold)))
           \<and> selected_k (exceedances data threshold)
                (hill_k_vals (length (exceedances data threshold))) = Inr k
           \<and> estimate_hill_shape (exceedances data threshold) k = Inr shape
           \<and> gpd_fit_inputs data threshold = Inr (Some (exceedances data threshold, shape))"
proof -
  let ?ex = "exceedances data threshold"
  let ?kv = "hill_k_vals (length ?ex)"
  have two: "2 \<le> length ?kv" using hill_k_vals_short[of "length ?ex"] assms by simp
  obtain k where k: "selected_k ?ex ?kv = Inr k" "k \<in> set ?kv"
    using selected_k_total[OF two] by blast
  then have "0 < k" "k < int (length ?ex)" by (simp_all add: set_hill_k_vals)
  then obtain shape where sh: "estimate_hill_shape ?ex k = Inr shape"
    using estimate_hill_shape_valid(2) by blast
  have "gpd_fit_inputs data threshold = Inr (Some (?ex, shape))"
    using assms two k sh by (simp add: gpd_fit_inputs_def Let_def MIN_EXCEEDANCES_def)
  then show ?thesis using k sh by blast
qed

lemma gpd_var_es_total:
  assumes "alpha \<noteq> 1"
  shows "\<exists>var es. gpd_var_es threshold shape scale alpha = Inr (var, es)"
  using assms by (simp add: gpd_var_es_def Let_def)

lemma compute_gpd_risks_mle_total:
  assumes "alpha \<noteq> 1"
  shows "\<exists>var es. compute_gpd_risks_mle minimize logpdf data threshold alpha = Inr (var, es)"
proof (cases "length (exceedances data threshold) \<le> 16")
  case True
  then show ?thesis by (simp add: compute_gpd_risks_mle_def gpd_fit_inputs_none)
next
  case False
  then obtain shape where
    "gpd_fit_inputs data threshold = Inr (Some (exceedances data threshold, shape))"
    using gpd_fit_inputs_some[of data threshold] by auto
  note fi = this
  show ?thesis
  proof (cases "fit_gpd_mle_fixed_shape minimize logpdf (exceedances data threshold) shape")
    case None
    then show ?thesis using fi by (simp add: compute_gpd_risks_mle_def)
  next
    case (Some scale)
    obtain var es where "gpd_var_es threshold shape scale alpha = Inr (var, es)"
      using gpd_var_es_total[OF assms] by blast
    then show ?thesis using fi Some by (simp add: compute_gpd_risks_mle_def)
  qed
qed

lemma loss_threshold_total:
  assumes "17 \<le> length losses"
  shows "\<exists>k. k \<in> set (hill_k_vals (length losses))
           \<and> selected_k losses (hill_k_vals (length losses)) = Inr k
           \<and> loss_threshold losses (hill_k_vals (length losses)) = Inr (sort_desc losses ! nat k)"
proof -
  let ?kv = "hill_k_vals (length losses)"
  have two: "2 \<le> length ?kv" using hill_k_vals_short[of "length losses"] assms by simp
  obtain k where k: "selected_k losses ?kv = Inr k" "k \<in> set ?kv"
    using selected_k_total[OF two] by blast
  then have "0 \<le> k" "k < int (length (sort_desc losses))"
    by (simp_all add: set_hill_k_vals length_sort_desc)
  then show ?thesis using k by (auto simp: loss_threshold_def py_index_nonneg)
qed

section \<open>The likelihood and the scale fit\<close>

lemma flt_irrefl: "\<not> flt v v"
  by (cases v) simp_all

lemma fle_Fin: "fle (Fin a) (Fin b) = (a \<le> b)" "fle (Fin a) PInf"
  by (auto simp: fle_def feq_def)

lemma sum_list_map_uminus: "sum_list (map (\<lambda>x. - f x) xs) = - sum_list (map f xs)"
  for f :: "'a \<Rightarrow> real"
  by (induction xs) simp_all

lemma genpareto_logpdf1_valid:
  assumes "0 < s" and "0 \<le> c" and "0 \<le> x"
  shows "genpareto_logpdf1 (Fin x) (Fin c) (Fin 0) (Fin s) =
           Fin (- (ln s + (if c = 0 then x / s else (c + 1) / c * ln (1 + c * (x / s)))))"
proof (cases "c = 0")
  case True
  then show ?thesis
    using assms by (simp add: genpareto_logpdf1_def Let_def fsub_def fle_Fin)
next
  case False
  have y: "0 \<le> x / s" using assms by simp
  have arg: "0 < 1 + c * (x / s)" using assms y by (simp add: add_pos_nonneg)
  have c1: "c + 1 \<noteq> 0" using assms by simp
  have "xlog1py (Fin (c + 1)) (fmul (Fin c) (Fin (x / s))) = Fin ((c + 1) * ln (1 + c * (x / s)))"
    using arg c1 by (simp add: xlog1py_def)
  then have "genpareto_logpdf1 (Fin x) (Fin c) (Fin 0) (Fin s) =
      Fin (- ((c + 1) * ln (1 + c * (x / s))) / c - ln s)"
    using assms False y by (simp add: genpareto_logpdf1_def Let_def fsub_def fle_Fin)
  also have "- ((c + 1) * ln (1 + c * (x / s))) / c - ln s =
      - (ln s + (c + 1) / c * ln (1 + c * (x / s)))"
    by simp
  finally show ?thesis using False by simp
qed

text \<open>
  On non-negative exceedances, with a shape \<open>c \<ge> 0\<close> and a scale \<open>s > 0\<close>, the objective
  is the negative log-likelihood of the generalized Pareto distribution, a finite number.
\<close>

lemma gpd_nll_valid:
  assumes s: "0 < s" and c: "0 \<le> c" and xs: "\<And>x. x \<in> set xs \<Longrightarrow> 0 \<le> x"
  shows "gpd_log_likelihood_fixed_shape genpareto_logpdf (Fin s) (map Fin xs) (Fin c) =
           Fin (\<Sum>x\<leftarrow>xs. ln s + (if c = 0 then x / s else (c + 1) / c * ln (1 + c * (x / s))))"
proof -
  let ?t = "\<lambda>x. ln s + (if c = 0 then x / s else (c + 1) / c * ln (1 + c * (x / s)))"
  have "map (\<lambda>x. genpareto_logpdf1 x (Fin c) (Fin 0) (Fin s)) (map Fin xs) =
        map Fin (map (\<lambda>x. - ?t x) xs)"
    using xs by (induction xs) (simp_all add: genpareto_logpdf1_valid[OF s c])
  moreover have "np_sum (map Fin (map (\<lambda>x. - ?t x) xs)) = Fin (- (\<Sum>x\<leftarrow>xs. ?t x))"
    unfolding np_sum_Fin sum_list_map_uminus ..
  ultimately have "np_sum (map (\<lambda>x. genpareto_logpdf1 x (Fin c) (Fin 0) (Fin s)) (map Fin xs)) =
        Fin (- (\<Sum>x\<leftarrow>xs. ?t x))"
    by (simp only:)
  then show ?thesis
    using s by (simp add: gpd_log_likelihood_fixed_shape_def genpareto_logpdf_def fle_def feq_def)
qed

lemma np_std_Fin:
  assumes "xs \<noteq> []"
  shows "\<exists>r. np_std (map Fin xs) = Fin r \<and> 0 \<le> r"
proof -
  let ?m = "sum_list xs / real (length xs)"
  have "map (\<lambda>x. fmul (fsub x (Fin ?m)) (fsub x (Fin ?m))) (map Fin xs) =
        map Fin (map (\<lambda>x. (x - ?m) * (x - ?m)) xs)"
    by (induction xs) (simp_all add: fsub_def)
  then have "np_std (map Fin xs) =
        fsqrt (Fin (sum_list (map (\<lambda>x. (x - ?m) * (x - ?m)) xs) / real (length xs)))"
    using assms by (simp add: np_std_def Let_def np_mean_Fin del: map_map)
  moreover have "0 \<le> sum_list (map (\<lambda>x. (x - ?m) * (x - ?m)) xs) / real (length xs)"
    by (intro divide_nonneg_nonneg sum_list_nonneg) auto
  ultimately show ?thesis by simp
qed

text \<open>
  Claim C9.  At every scale \<open>\<sigma> \<le> 0\<close> the negative log-likelihood is \<open>+\<infinity>\<close>, whatever
  the data, the shape and the log-density do (the log-density is not even called, and the
  function has no way to raise).  At every other scale scipy's log-density returns an
  array, so the \<open>except\<close> branch is not reached and the result is the negated sum of the
  log-densities; on valid data (non-negative exceedances, a shape \<open>c \<ge> 0\<close>, \<open>\<sigma> > 0\<close>) it is
  the finite negative log-likelihood of the generalized Pareto distribution.
\<close>

theorem gpd_objective_nonpositive_scale:
  "(fle scale (Fin 0) \<longrightarrow> gpd_log_likelihood_fixed_shape logpdf scale data shape = PInf)
   \<and> (\<not> fle scale (Fin 0) \<longrightarrow>
        (\<exists>ys. genpareto_logpdf data shape (Fin 0) scale = Inr ys \<and> length ys = length data
            \<and> gpd_log_likelihood_fixed_shape genpareto_logpdf scale data shape = fneg (np_sum ys)))
   \<and> (0 < s \<longrightarrow> 0 \<le> c \<longrightarrow> (\<forall>x\<in>set xs. 0 \<le> x) \<longrightarrow>
        gpd_log_likelihood_fixed_shape genpareto_logpdf (Fin s) (map Fin xs) (Fin c) =
          Fin (\<Sum>x\<leftarrow>xs. ln s + (if c = 0 then x / s else (c + 1) / c * ln (1 + c * (x / s)))))"
proof -
  have a: "fle scale (Fin 0) \<Longrightarrow> gpd_log_likelihood_fixed_shape logpdf scale data shape = PInf"
    by (simp add: gpd_log_likelihood_fixed_shape_def)
  have b: "\<not> fle scale (Fin 0) \<Longrightarrow>
        (\<exists>ys. genpareto_logpdf data shape (Fin 0) scale = Inr ys \<and> length ys = length data
            \<and> gpd_log_likelihood_fixed_shape genpareto_logpdf scale data shape = fneg (np_sum ys))"
    by (simp add: gpd_log_likelihood_fixed_shape_def genpareto_logpdf_def)
  have c: "0 < s \<Longrightarrow> 0 \<le> c \<Longrightarrow> (\<forall>x\<in>set xs. 0 \<le> x) \<Longrightarrow>
        gpd_log_likelihood_fixed_shape genpareto_logpdf (Fin s) (map Fin xs) (Fin c) =
          Fin (\<Sum>x\<leftarrow>xs. ln s + (if c = 0 then x / s else (c + 1) / c * ln (1 + c * (x / s))))"
    using gpd_nll_valid[of s c xs] by blast
  show ?thesis using a b c by blast
qed

text \<open>Scales \<open>-1\<close> and \<open>0\<close> with a log-density that would raise; scale 1 and shape 1 on
  the exceedances 0 and 1 with scipy's log-density.\<close>

theorem gpd_objective_nonpositive_scale_witness:
  "gpd_log_likelihood_fixed_shape raising_logpdf (Fin (- 1)) [Fin 1, Fin 2] (Fin 2) = PInf
   \<and> gpd_log_likelihood_fixed_shape raising_logpdf (Fin 0) [Fin 1, Fin 2] (Fin 2) = PInf
   \<and> gpd_log_likelihood_fixed_shape genpareto_logpdf (Fin 1) [Fin 0, Fin 1] (Fin 1) = Fin (2 * ln 2)"
  using gpd_objective_nonpositive_scale[of "Fin (- 1)" raising_logpdf "[Fin 1, Fin 2]" "Fin 2"]
    gpd_objective_nonpositive_scale[of "Fin 0" raising_logpdf "[Fin 1, Fin 2]" "Fin 2"]
    gpd_objective_nonpositive_scale[of _ _ _ _ 1 1 "[0, 1]"]
  by (simp add: fle_Fin)

text \<open>
  Claim C6.  With a minimizer whose successful runs end at a finite point within the
  bounds (as those of L-BFGS-B do), the scale fitter returns \<open>None\<close> exactly when the sample
  has fewer than 5 elements or the minimizer reports no success, and a strictly positive
  real scale in every other case.  On at least 5 finite exceedances the minimizer is
  started at a finite, non-negative point; and on non-negative exceedances with a shape
  \<open>c \<ge> 0\<close> the scale returned has a finite negative log-likelihood.
\<close>

theorem fit_gpd_result:
  assumes "feasible_on_success minimize"
  shows "(fit_gpd_mle_fixed_shape minimize logpdf data shape = None \<longleftrightarrow>
            length data < 5 \<or>
            \<not> opt_success (minimize (\<lambda>scale. gpd_log_likelihood_fixed_shape logpdf scale data shape)
                                    (np_std data) (Fin (1 / 10 ^ 6), PInf)))
         \<and> (\<forall>s. fit_gpd_mle_fixed_shape minimize logpdf data shape = Some s \<longrightarrow>
                (\<exists>r. s = Fin r \<and> 0 < r))
         \<and> (\<forall>xs. data = map Fin xs \<longrightarrow> 5 \<le> length xs \<longrightarrow> (\<exists>r. np_std data = Fin r \<and> 0 \<le> r))
         \<and> (\<forall>xs c s. (\<forall>x\<in>set xs. 0 \<le> x) \<longrightarrow> 0 \<le> c \<longrightarrow>
                fit_gpd_mle_fixed_shape minimize genpareto_logpdf (map Fin xs) (Fin c) = Some s \<longrightarrow>
                is_finite (gpd_log_likelihood_fixed_shape genpareto_logpdf s (map Fin xs) (Fin c)))"
proof -
  have pos: "\<exists>r. s = Fin r \<and> 0 < r"
    if "fit_gpd_mle_fixed_shape minimize lp d sh = Some s" for lp d sh s
  proof -
    let ?res = "minimize (\<lambda>scale. gpd_log_likelihood_fixed_shape lp scale d sh)
                         (np_std d) (Fin (1 / 10 ^ 6), PInf)"
    have ok: "opt_success ?res" and s: "s = opt_x ?res"
      using that by (auto simp: fit_gpd_mle_fixed_shape_def Let_def split: if_splits)
    obtain r where r: "opt_x ?res = Fin r" "1 / 10 ^ 6 \<le> r"
      using assms ok unfolding feasible_on_success_def by blast
    have "(0::real) < 1 / 10 ^ 6" by simp
    then have "0 < r" using r(2) by linarith
    then show ?thesis using r(1) s by simp
  qed
  have none: "fit_gpd_mle_fixed_shape minimize logpdf data shape = None \<longleftrightarrow>
            length data < 5 \<or>
            \<not> opt_success (minimize (\<lambda>scale. gpd_log_likelihood_fixed_shape logpdf scale data shape)
                                    (np_std data) (Fin (1 / 10 ^ 6), PInf))"
    by (auto simp: fit_gpd_mle_fixed_shape_def Let_def MIN_EXCEEDANCES_def)
  have start: "\<exists>r. np_std data = Fin r \<and> 0 \<le> r"
    if d: "data = map Fin xs" and n: "5 \<le> length xs" for xs
  proof -
    have "xs \<noteq> []" using n by auto
    then show ?thesis using np_std_Fin d by blast
  qed
  have fin: "is_finite (gpd_log_likelihood_fixed_shape genpareto_logpdf s (map Fin xs) (Fin c))"
    if nonneg: "\<forall>x\<in>set xs. 0 \<le> x" and c0: "0 \<le> c"
      and fit: "fit_gpd_mle_fixed_shape minimize genpareto_logpdf (map Fin xs) (Fin c) = Some s"
    for xs c s
  proof -
    obtain r where r: "s = Fin r" "0 < r" using pos[OF fit] by blast
    show ?thesis unfolding r(1) using gpd_nll_valid[OF r(2) c0, of xs] nonneg by simp
  qed
  show ?thesis using pos none start fin by blast
qed

lemma probe_minimizer_feasible: "feasible_on_success probe_minimizer"
  unfolding feasible_on_success_def probe_minimizer_def
  by (auto split: npfloat.splits)

lemma raising_objective:
  "gpd_log_likelihood_fixed_shape raising_logpdf scale data shape = PInf"
  by (simp add: gpd_log_likelihood_fixed_shape_def raising_logpdf_def)

lemma probe_fails_on_infinite:
  "(\<And>v. f v = PInf) \<Longrightarrow> \<not> opt_success (probe_minimizer f x0 b)"
  by (auto simp: probe_minimizer_def split: npfloat.splits)

lemma np_std_1_to_5: "np_std (map Fin [1, 2, 3, 4, 5]) = Fin (sqrt 2)"
  by (simp add: np_std_def np_mean_def np_sum_def fsub_def Let_def)

text \<open>
  The exceedances 1 to 5 with shape 1/2: the start is their standard deviation
  \<open>\<surd>2\<close>, where the likelihood is finite.  Four exceedances give no fit, and neither does
  a log-density that raises, whose objective is infinite.
\<close>

theorem fit_gpd_result_witness:
  "feasible_on_success probe_minimizer
   \<and> fit_gpd_mle_fixed_shape probe_minimizer genpareto_logpdf (map Fin [1, 2, 3, 4, 5]) (Fin (1 / 2))
       = Some (Fin (sqrt 2))
   \<and> fit_gpd_mle_fixed_shape probe_minimizer genpareto_logpdf (map Fin [1, 2, 3, 4]) (Fin (1 / 2))
       = None
   \<and> fit_gpd_mle_fixed_shape probe_minimizer raising_logpdf (map Fin [1, 2, 3, 4, 5]) (Fin (1 / 2))
       = None"
proof -
  note t = fit_gpd_result[OF probe_minimizer_feasible]
  have low: "max (sqrt 2) (1 / 10 ^ 6) = sqrt 2"
  proof -
    have "(1::real) \<le> sqrt 2" by simp
    moreover have "1 / 10 ^ 6 \<le> (1::real)" by simp
    ultimately have "1 / 10 ^ 6 \<le> sqrt 2" by linarith
    then show ?thesis by (rule max_absorb1)
  qed
  have obj: "is_finite (gpd_log_likelihood_fixed_shape genpareto_logpdf (Fin (sqrt 2))
               (map Fin [1, 2, 3, 4, 5]) (Fin (1 / 2)))"
  proof -
    have "\<And>x. x \<in> set [1, 2, 3, 4, 5::real] \<Longrightarrow> 0 \<le> x" by auto
    then show ?thesis
      by (subst gpd_nll_valid) simp_all
  qed
  have res: "probe_minimizer
               (\<lambda>scale. gpd_log_likelihood_fixed_shape genpareto_logpdf scale
                           (map Fin [1, 2, 3, 4, 5]) (Fin (1 / 2)))
               (np_std (map Fin [1, 2, 3, 4, 5])) (Fin (1 / 10 ^ 6), PInf)
             = \<lparr>opt_success = True, opt_x = Fin (sqrt 2), opt_message = []\<rparr>"
    unfolding np_std_1_to_5 probe_minimizer_def using low obj by simp
  have a: "fit_gpd_mle_fixed_shape probe_minimizer genpareto_logpdf (map Fin [1, 2, 3, 4, 5]) (Fin (1 / 2))
       = Some (Fin (sqrt 2))"
  proof -
    have "fit_gpd_mle_fixed_shape probe_minimizer genpareto_logpdf (map Fin [1, 2, 3, 4, 5])
            (Fin (1 / 2)) \<noteq> None"
      using t[of genpareto_logpdf "map Fin [1, 2, 3, 4, 5]" "Fin (1 / 2)"] res by simp
    then show ?thesis
      using res by (auto simp: fit_gpd_mle_fixed_shape_def Let_def)
  qed
  have b: "fit_gpd_mle_fixed_shape probe_minimizer genpareto_logpdf (map Fin [1, 2, 3, 4]) (Fin (1 / 2))
       = None"
    using t[of genpareto_logpdf "map Fin [1, 2, 3, 4]" "Fin (1 / 2)"] by simp
  have c: "fit_gpd_mle_fixed_shape probe_minimizer raising_logpdf (map Fin [1, 2, 3, 4, 5]) (Fin (1 / 2))
       = None"
  proof -
    have "\<not> opt_success (probe_minimizer
             (\<lambda>scale. gpd_log_likelihood_fixed_shape raising_logpdf scale
                         (map Fin [1, 2, 3, 4, 5]) (Fin (1 / 2)))
             (np_std (map Fin [1, 2, 3, 4, 5])) (Fin (1 / 10 ^ 6), PInf))"
      by (rule probe_fails_on_infinite) (rule raising_objective)
    then show ?thesis
      using t[of raising_logpdf "map Fin [1, 2, 3, 4, 5]" "Fin (1 / 2)"] by blast
  qed
  show ?thesis using probe_minimizer_feasible a b c by simp
qed

section \<open>Selection among two candidates\<close>

lemma reflect_index_less: "0 < n \<Longrightarrow> reflect_index n i < n"
  by (auto simp: reflect_index_def Let_def nat_less_iff)

lemma pair_nth: "m < 2 \<Longrightarrow> [d, d] ! m = d"
  by (cases m) simp_all

lemma pair_reflect: "[d, d] ! reflect_index (Suc (Suc 0)) i = d"
  using reflect_index_less[of 2 i] pair_nth[of "reflect_index 2 i" d]
  by (simp add: numeral_2_eq_2)

lemma gaussian_filter1d_pair: "\<exists>u. gaussian_filter1d [d, d] s = [u, u]"
proof -
  have two: "[0..<2] = [0, Suc 0]" by (simp add: upt_rec)
  show ?thesis
    by (simp add: gaussian_filter1d_def Let_def two pair_reflect)
qed

lemma np_gradient_pair: "np_gradient [a, b] = Inr [fsub b a, fsub b a]"
proof -
  have two: "[0..<2] = [0, Suc 0]" by (simp add: upt_rec)
  show ?thesis by (simp add: np_gradient_def two)
qed

lemma np_argmin_pair: "np_argmin [u, u] = Inr 0"
  by (simp add: np_argmin_def flt_irrefl)

lemma select_k_pair: "select_k [a, b] [k0, k1] = Inr k0"
proof -
  obtain u where "gaussian_filter1d [fabs (fsub b a), fabs (fsub b a)] SELECT_K_SIGMA = [u, u]"
    using gaussian_filter1d_pair by blast
  then show ?thesis
    by (simp add: select_k_def np_gradient_pair np_argmin_pair py_index_def)
qed

lemma hill_k_vals_17: "hill_k_vals 17 = [5, 6]"
  by (simp add: hill_k_vals_def np_arange_def HILL_K_MIN_def upto.simps)

lemma selected_k_17: "selected_k data (hill_k_vals 17) = Inr 5"
proof -
  have "\<exists>s. hill_estimator data [5, 6] = Inr s \<and> length s = length [5, 6::int]"
    by (rule hill_estimator_total) auto
  then obtain s where s: "hill_estimator data [5, 6] = Inr s" "length s = 2"
    by auto
  then obtain a b where "s = [a, b]"
    by (cases s; cases "tl s") auto
  then show ?thesis using s by (simp add: selected_k_def hill_k_vals_17 select_k_pair)
qed

section \<open>Exceedances and the shape of the fit\<close>

text \<open>
  Claim C3.  Whenever at most 16 losses lie strictly above the threshold,
  \<open>compute_gpd_risks_mle\<close> returns \<open>(None, None)\<close>, whatever the minimizer would do:
  the candidate range \<open>arange(5, min(len(exceed) - 10, 150))\<close> then has fewer than two
  values.  The scale fit is reached exactly when there are at least 17 exceedances.
\<close>

theorem no_fit_below_17_exceedances:
  "(length (exceedances data threshold) \<le> 16 \<longrightarrow>
      compute_gpd_risks_mle minimize logpdf data threshold alpha = Inr (None, None))
   \<and> (length (hill_k_vals (length (exceedances data threshold))) < 2 \<longleftrightarrow>
        length (exceedances data threshold) \<le> 16)
   \<and> ((\<exists>inp. gpd_fit_inputs data threshold = Inr (Some inp)) \<longleftrightarrow>
        17 \<le> length (exceedances data threshold))"
proof -
  have a: "length (exceedances data threshold) \<le> 16 \<Longrightarrow>
      compute_gpd_risks_mle minimize logpdf data threshold alpha = Inr (None, None)"
    by (simp add: compute_gpd_risks_mle_def gpd_fit_inputs_none)
  have b: "17 \<le> length (exceedances data threshold) \<Longrightarrow>
      \<exists>inp. gpd_fit_inputs data threshold = Inr (Some inp)"
    using gpd_fit_inputs_some[of data threshold] by blast
  have c: "\<not> 17 \<le> length (exceedances data threshold) \<Longrightarrow>
      \<not> (\<exists>inp. gpd_fit_inputs data threshold = Inr (Some inp))"
    using gpd_fit_inputs_none[of data threshold] by simp
  show ?thesis using a b c hill_k_vals_short by blast
qed

text \<open>Sixteen losses above the threshold, then seventeen.\<close>

theorem no_fit_below_17_exceedances_witness:
  "compute_gpd_risks_mle (constant_minimizer True (Fin 1)) zero_logpdf
       (replicate 16 (Fin 2)) (Fin 1) GPD_ALPHA = Inr (None, None)
   \<and> (\<exists>inp. gpd_fit_inputs (replicate 17 (Fin 2)) (Fin 1) = Inr (Some inp))"
  using no_fit_below_17_exceedances[of "replicate 16 (Fin 2)" "Fin 1"
          "constant_minimizer True (Fin 1)" zero_logpdf GPD_ALPHA]
        no_fit_below_17_exceedances[of "replicate 17 (Fin 2)" "Fin 1"]
  by (simp add: exceedances_def)

lemma gpd_fit_inputs_exceed:
  "gpd_fit_inputs data threshold = Inr (Some (exceed, shape)) \<Longrightarrow>
   exceed = exceedances data threshold"
  by (auto simp: gpd_fit_inputs_def Let_def split: if_splits sum.splits)

lemma gpd_fit_inputs_same_exceedances:
  "exceedances data' threshold = exceedances data threshold \<Longrightarrow>
   gpd_fit_inputs data' threshold = gpd_fit_inputs data threshold"
  by (simp add: gpd_fit_inputs_def)

text \<open>
  Claim C2, as amended.  Where \<open>compute_gpd_risks_mle\<close> reaches the scale fit, the shape
  it holds fixed is the Hill estimate of the exceedance series (the losses above the
  threshold, minus the threshold) at an order statistic selected on that same series;
  the loss series enters only through its exceedances.  The fit receives these
  exceedances and this shape, and every evaluation of its objective uses this shape.
\<close>

theorem gpd_shape_from_exceedances:
  assumes "gpd_fit_inputs data threshold = Inr (Some (exceed, shape))"
  shows "exceed = exceedances data threshold
    \<and> (\<exists>k. k \<in> set (hill_k_vals (length exceed))
           \<and> selected_k exceed (hill_k_vals (length exceed)) = Inr k
           \<and> estimate_hill_shape exceed k = Inr shape)
    \<and> (\<forall>data'. exceedances data' threshold = exceed \<longrightarrow>
           gpd_fit_inputs data' threshold = Inr (Some (exceed, shape)))
    \<and> compute_gpd_risks_mle minimize logpdf data threshold alpha =
        (case fit_gpd_mle_fixed_shape minimize logpdf exceed shape of
           None \<Rightarrow> Inr (None, None)
         | Some scale \<Rightarrow>
             (case gpd_var_es threshold shape scale alpha of
                Inl e \<Rightarrow> Inl e
              | Inr (var, es) \<Rightarrow> Inr (Some var, Some es)))
    \<and> fit_gpd_mle_fixed_shape minimize logpdf exceed shape =
        (let result = minimize (\<lambda>scale. gpd_log_likelihood_fixed_shape logpdf scale exceed shape)
                               (np_std exceed) (Fin (1 / 10 ^ 6), PInf)
         in if opt_success result then Some (opt_x result) else None)"
proof -
  have ex: "exceed = exceedances data threshold"
    using assms by (rule gpd_fit_inputs_exceed)
  have len: "17 \<le> length exceed"
    using assms gpd_fit_inputs_none[of data threshold] ex by (cases "17 \<le> length exceed") auto
  obtain k sh where k: "k \<in> set (hill_k_vals (length exceed))"
      "selected_k exceed (hill_k_vals (length exceed)) = Inr k"
      "estimate_hill_shape exceed k = Inr sh"
      "gpd_fit_inputs data threshold = Inr (Some (exceed, sh))"
    using gpd_fit_inputs_some[of data threshold] len ex by auto
  then have sh: "sh = shape" using assms by simp
  have same: "\<forall>data'. exceedances data' threshold = exceed \<longrightarrow>
           gpd_fit_inputs data' threshold = Inr (Some (exceed, shape))"
    using assms ex gpd_fit_inputs_same_exceedances by metis
  have comp: "compute_gpd_risks_mle minimize logpdf data threshold alpha =
        (case fit_gpd_mle_fixed_shape minimize logpdf exceed shape of
           None \<Rightarrow> Inr (None, None)
         | Some scale \<Rightarrow>
             (case gpd_var_es threshold shape scale alpha of
                Inl e \<Rightarrow> Inl e
              | Inr (var, es) \<Rightarrow> Inr (Some var, Some es)))"
    using assms by (simp add: compute_gpd_risks_mle_def)
  have fit: "fit_gpd_mle_fixed_shape minimize logpdf exceed shape =
        (let result = minimize (\<lambda>scale. gpd_log_likelihood_fixed_shape logpdf scale exceed shape)
                               (np_std exceed) (Fin (1 / 10 ^ 6), PInf)
         in if opt_success result then Some (opt_x result) else None)"
    using len by (simp add: fit_gpd_mle_fixed_shape_def MIN_EXCEEDANCES_def Let_def)
  show ?thesis using ex k(1,2,3) sh same comp fit by blast
qed

lemma ln_pow2: "ln ((2::real) ^ n) = real n * ln 2"
  by (simp add: ln_realpow)

lemma ln_small_powers:
  "ln (4::real) = 2 * ln 2" "ln (8::real) = 3 * ln 2" "ln (16::real) = 4 * ln 2"
  "ln (32::real) = 5 * ln 2" "ln (64::real) = 6 * ln 2"
  using ln_pow2[of 2] ln_pow2[of 3] ln_pow2[of 4] ln_pow2[of 5] ln_pow2[of 6] by simp_all

lemma example_exceedances:
  "exceedances example_losses (Fin 100) = map Fin ([64, 32, 16, 8, 4, 2] @ replicate 11 1)"
  by (simp add: exceedances_def example_losses_def fsub_def)

lemma example_exceedances_sorted:
  "rev (sort ([64, 32, 16, 8, 4, 2] @ replicate 11 (1::real))) =
     [64, 32, 16, 8, 4, 2] @ replicate 11 1"
  by code_simp

lemma example_shape:
  "estimate_hill_shape (exceedances example_losses (Fin 100)) 5 = Inr (Fin (3 * ln 2))"
proof -
  let ?xs = "[64, 32, 16, 8, 4, 2] @ replicate 11 (1::real)"
  have pos: "\<And>x. x \<in> set ?xs \<Longrightarrow> 0 < x" by auto
  have "estimate_hill_shape (map Fin ?xs) 5 = mean_log_excess (map Fin ?xs) 5"
    unfolding estimate_hill_shape_def Let_def sort_desc_Fin example_exceedances_sorted
    by simp
  also have "\<dots> = Inr (Fin (sum_list (map ln (take (nat 5) ?xs)) / of_int 5 - ln (?xs ! nat 5)))"
    by (rule mean_log_excess_pos[OF pos]) simp_all
  also have "sum_list (map ln (take (nat 5) ?xs)) / of_int 5 - ln (?xs ! nat 5) = 3 * ln 2"
    by (simp add: ln_small_powers)
  finally show ?thesis by (simp only: example_exceedances)
qed

lemma example_fit_inputs:
  "gpd_fit_inputs example_losses (Fin 100) =
     Inr (Some (exceedances example_losses (Fin 100), Fin (3 * ln 2)))"
proof -
  have len: "length (exceedances example_losses (Fin 100)) = 17"
    by (simp add: example_exceedances)
  show ?thesis
    by (simp add: gpd_fit_inputs_def Let_def len MIN_EXCEEDANCES_def hill_k_vals_17
        selected_k_17[unfolded hill_k_vals_17] example_shape)
qed

text \<open>The losses of the example, the threshold 100 and a minimizer that fails.\<close>

theorem gpd_shape_from_exceedances_witness:
  "estimate_hill_shape (exceedances example_losses (Fin 100)) 5 = Inr (Fin (3 * ln 2))
   \<and> selected_k (exceedances example_losses (Fin 100)) (hill_k_vals 17) = Inr 5
   \<and> compute_gpd_risks_mle (constant_minimizer False (Fin 1)) zero_logpdf
        example_losses (Fin 100) GPD_ALPHA = Inr (None, None)"
proof -
  have len: "length (exceedances example_losses (Fin 100)) = 17"
    by (simp add: example_exceedances)
  note t = gpd_shape_from_exceedances[OF example_fit_inputs,
      of "constant_minimizer False (Fin 1)" zero_logpdf GPD_ALPHA]
  from t obtain k where k: "selected_k (exceedances example_losses (Fin 100)) (hill_k_vals 17) = Inr k"
    "estimate_hill_shape (exceedances example_losses (Fin 100)) k = Inr (Fin (3 * ln 2))"
    unfolding len by blast
  then have "k = 5" by (simp add: selected_k_17)
  moreover have "compute_gpd_risks_mle (constant_minimizer False (Fin 1)) zero_logpdf
        example_losses (Fin 100) GPD_ALPHA = Inr (None, None)"
    using t by (simp add: constant_minimizer_def Let_def)
  ultimately show ?thesis using k by simp
qed

lemma sum_ln_le:
  assumes "\<And>x. x \<in> set ys \<Longrightarrow> 0 < x \<and> x \<le> (hi::real)"
  shows "sum_list (map ln ys) \<le> real (length ys) * ln hi"
  using assms
proof (induction ys)
  case Nil
  then show ?case by simp
next
  case (Cons y ys)
  have "ln y \<le> ln hi" using Cons.prems[of y] by simp
  moreover have "sum_list (map ln ys) \<le> real (length ys) * ln hi"
    using Cons by simp
  ultimately show ?case by (simp add: algebra_simps)
qed

lemma hill_value_upper:
  assumes rng: "\<And>x. x \<in> set sd \<Longrightarrow> lo \<le> x \<and> x \<le> (hi::real)" and lo: "0 < lo"
    and k1: "1 \<le> k" and klt: "k < int (length sd)"
  shows "sum_list (map ln (take (nat k) sd)) / of_int k - ln (sd ! nat k) \<le> ln hi - ln lo"
proof -
  let ?ys = "take (nat k) sd"
  have len: "real (length ?ys) = of_int k" using k1 klt by simp
  have "0 < x \<and> x \<le> hi" if "x \<in> set ?ys" for x
  proof -
    have "x \<in> set sd" using that by (rule in_set_takeD)
    then show ?thesis using rng[of x] lo by simp
  qed
  then have "sum_list (map ln ?ys) \<le> real (length ?ys) * ln hi" by (rule sum_ln_le)
  then have "sum_list (map ln ?ys) / of_int k \<le> ln hi"
    using k1 unfolding len by (simp add: pos_divide_le_eq mult.commute)
  moreover have "ln lo \<le> ln (sd ! nat k)"
  proof -
    have "sd ! nat k \<in> set sd" using k1 klt by (simp add: nat_less_iff)
    then show ?thesis using rng[of "sd ! nat k"] lo by simp
  qed
  ultimately show ?thesis by simp
qed

lemma example_losses_sorted:
  "rev (sort ([164, 132, 116, 108, 104, 102] @ replicate 11 101 @ replicate 13 (100::real))) =
     [164, 132, 116, 108, 104, 102] @ replicate 11 101 @ replicate 13 100"
  by code_simp

lemma example_sort_desc:
  "sort_desc example_losses =
     map Fin ([164, 132, 116, 108, 104, 102] @ replicate 11 101 @ replicate 13 100)"
  unfolding example_losses_def sort_desc_Fin example_losses_sorted ..

lemma example_loss_hill_below:
  assumes "k \<in> set (hill_k_vals (length example_losses))"
  shows "estimate_hill_shape example_losses k \<noteq> Inr (Fin (3 * ln 2))"
proof -
  let ?sd = "[164, 132, 116, 108, 104, 102] @ replicate 11 101 @ replicate 13 (100::real)"
  have len: "length example_losses = 30" by (simp add: example_losses_def)
  have k: "1 \<le> k" "k < int (length ?sd)" "0 < k" "k < int (length example_losses)"
    using assms by (simp_all add: set_hill_k_vals len)
  have rng: "\<And>x. x \<in> set ?sd \<Longrightarrow> 100 \<le> x \<and> x \<le> 164" by auto
  then have pos: "\<And>x. x \<in> set ?sd \<Longrightarrow> 0 < x" by force
  have "estimate_hill_shape example_losses k = mean_log_excess (sort_desc example_losses) k"
    using k(3,4) by (rule estimate_hill_shape_valid(1))
  also have "\<dots> = Inr (Fin (sum_list (map ln (take (nat k) ?sd)) / of_int k - ln (?sd ! nat k)))"
    unfolding example_sort_desc by (rule mean_log_excess_pos[OF pos k(1,2)])
  finally have e: "estimate_hill_shape example_losses k =
      Inr (Fin (sum_list (map ln (take (nat k) ?sd)) / of_int k - ln (?sd ! nat k)))" .
  have "sum_list (map ln (take (nat k) ?sd)) / of_int k - ln (?sd ! nat k) \<le> ln 164 - ln 100"
    using hill_value_upper[of ?sd 100 164 k] rng k(1,2) by simp
  moreover have "ln 164 - ln 100 < 3 * ln (2::real)"
  proof -
    have "ln (164::real) < ln (100 * 8)" by simp
    also have "\<dots> = ln 100 + ln (8::real)" by (rule ln_mult_pos) simp_all
    finally show ?thesis by (simp add: ln_small_powers)
  qed
  ultimately show ?thesis using e by simp
qed

text \<open>
  Called on the example losses with the threshold 100, which is what threshold selection
  hands over when it selects \<open>k* = 17\<close>, 18 or 19, \<open>compute_gpd_risks_mle\<close> reaches the
  fit with the shape \<open>3 ln 2\<close>, the Hill estimate of the 17 exceedances at \<open>k = 5\<close>.  No
  Hill estimate of the loss series, at any candidate \<open>k\<close> of threshold selection, has this
  value: claim C2 as stated fails.
\<close>

theorem shape_is_not_loss_series_hill:
  "gpd_fit_inputs example_losses (Fin 100) =
     Inr (Some (exceedances example_losses (Fin 100), Fin (3 * ln 2)))
   \<and> map (\<lambda>k. py_index (sort_desc example_losses) k) [17, 18, 19] =
       [Inr (Fin 100), Inr (Fin 100), Inr (Fin 100)]
   \<and> list_all (\<lambda>k. estimate_hill_shape example_losses k \<noteq> Inr (Fin (3 * ln 2)))
       (hill_k_vals (length example_losses))"
proof -
  have "map (\<lambda>k. py_index (sort_desc example_losses) k) [17, 18, 19] =
       [Inr (Fin 100), Inr (Fin 100), Inr (Fin 100)]"
    by (simp add: example_sort_desc py_index_def nth_append)
  then show ?thesis
    using example_fit_inputs example_loss_hill_below by (simp add: list_all_iff)
qed

section \<open>The threshold\<close>

text \<open>
  Claim C4, as amended.  For a loss series with at least two candidate order statistics,
  threshold selection picks a candidate \<open>k*\<close> and the exceedance threshold is the element
  of index \<open>k*\<close> (counting from 0) of the descending-sorted losses: the
  \<open>(k* + 1)\<close>-th largest loss.
\<close>

theorem threshold_is_next_order_statistic:
  assumes "17 \<le> length losses"
  shows "\<exists>k. selected_k losses (hill_k_vals (length losses)) = Inr k
           \<and> 5 \<le> k \<and> k < int (length losses) - 10 \<and> k < 150
           \<and> loss_threshold losses (hill_k_vals (length losses)) = Inr (kth_largest losses (k + 1))"
  using loss_threshold_total[OF assms]
  by (auto simp: kth_largest_def set_hill_k_vals)

lemma losses_1_to_17_sorted:
  "rev (sort (map real [1..<18])) ! 5 = 12"
  by code_simp

text \<open>The losses 1 to 17: the selected \<open>k*\<close> is 5 and the threshold is 12, the sixth
  largest loss.\<close>

theorem threshold_is_next_order_statistic_witness:
  "selected_k (map Fin (map real [1..<18])) (hill_k_vals 17) = Inr 5
   \<and> loss_threshold (map Fin (map real [1..<18])) (hill_k_vals 17) = Inr (Fin 12)"
proof -
  let ?l = "map Fin (map real [1..<18])"
  have len: "length ?l = 17" by simp
  obtain k where k: "selected_k ?l (hill_k_vals 17) = Inr k"
    "loss_threshold ?l (hill_k_vals 17) = Inr (kth_largest ?l (k + 1))"
    using threshold_is_next_order_statistic[of ?l] unfolding len by auto
  then have k5: "k = 5" by (simp add: selected_k_17)
  have "kth_largest ?l 6 = Fin 12"
    unfolding kth_largest_def sort_desc_Fin using losses_1_to_17_sorted by simp
  then show ?thesis using k k5 by simp
qed

lemma distinct_distinct_losses: "distinct distinct_losses"
  by (simp add: distinct_losses_def distinct_map inj_on_def)

text \<open>
  On the thirty distinct losses 1 to 30 the threshold is not the \<open>k*\<close>-th largest loss,
  whichever \<open>k*\<close> the selection returns: claim C4 as stated fails.
\<close>

theorem threshold_not_kth_largest:
  "loss_threshold distinct_losses (hill_k_vals (length distinct_losses)) \<noteq>
     map_sum id (kth_largest distinct_losses)
       (selected_k distinct_losses (hill_k_vals (length distinct_losses)))"
proof -
  have len: "length distinct_losses = 30" by (simp add: distinct_losses_def)
  obtain k where k: "k \<in> set (hill_k_vals (length distinct_losses))"
    "selected_k distinct_losses (hill_k_vals (length distinct_losses)) = Inr k"
    "loss_threshold distinct_losses (hill_k_vals (length distinct_losses)) =
       Inr (sort_desc distinct_losses ! nat k)"
    using loss_threshold_total[of distinct_losses] len by auto
  have r: "5 \<le> k" "k < 20" using k(1) by (simp_all add: set_hill_k_vals len)
  have d: "distinct (sort_desc distinct_losses)"
    by (simp add: distinct_sort_desc distinct_distinct_losses)
  have "sort_desc distinct_losses ! nat k \<noteq> sort_desc distinct_losses ! nat (k - 1)"
    using r d by (simp add: nth_eq_iff_index_eq length_sort_desc len nat_less_iff)
  then show ?thesis using k by (simp add: kth_largest_def)
qed

text \<open>
  On distinct losses the threshold of index \<open>k\<close> leaves exactly \<open>k\<close> exceedances: it is the
  \<open>(k + 1)\<close>-th largest loss, not the \<open>k\<close>-th.
\<close>

lemma filter_above_sorted:
  fixes s :: "real list"
  assumes "sorted s" and "distinct s" and "m < length s"
  shows "filter (\<lambda>x. s ! m < x) s = drop (Suc m) s"
proof -
  have strict: "sorted_wrt (<) s" using assms(1,2) by (simp add: strict_sorted_iff)
  have low: "filter (\<lambda>x. s ! m < x) (take (Suc m) s) = []"
  proof -
    have "\<not> s ! m < x" if xin: "x \<in> set (take (Suc m) s)" for x
    proof -
      obtain i where i: "i < length (take (Suc m) s)" "take (Suc m) s ! i = x"
        using xin unfolding in_set_conv_nth by blast
      then have "i \<le> m" "x = s ! i" by simp_all
      then show ?thesis using sorted_nth_mono[OF assms(1), of i m] assms(3) by simp
    qed
    then show ?thesis by (simp add: filter_empty_conv)
  qed
  have high: "filter (\<lambda>x. s ! m < x) (drop (Suc m) s) = drop (Suc m) s"
  proof -
    have "s ! m < x" if xin: "x \<in> set (drop (Suc m) s)" for x
    proof -
      obtain j where j: "j < length (drop (Suc m) s)" "drop (Suc m) s ! j = x"
        using xin unfolding in_set_conv_nth by blast
      then have "Suc m + j < length s" "x = s ! (Suc m + j)" by simp_all
      then show ?thesis using sorted_wrt_nth_less[OF strict, of m "Suc m + j"] by simp
    qed
    then show ?thesis by (simp add: filter_id_conv)
  qed
  have "filter (\<lambda>x. s ! m < x) s =
        filter (\<lambda>x. s ! m < x) (take (Suc m) s) @ filter (\<lambda>x. s ! m < x) (drop (Suc m) s)"
    by (simp only: filter_append[symmetric] append_take_drop_id)
  then show ?thesis using low high by simp
qed

lemma length_filter_insort:
  fixes ys :: "real list"
  shows "length (filter P (insort x ys)) = length (filter P (x # ys))"
  by (induction ys) simp_all

lemma length_filter_sort:
  fixes xs :: "real list"
  shows "length (filter P (sort xs)) = length (filter P xs)"
proof (induction xs)
  case Nil
  then show ?case by simp
next
  case (Cons x xs)
  have "length (filter P (sort (x # xs))) = length (filter P (x # sort xs))"
    by (simp only: sort_key_simps length_filter_insort)
  then show ?case using Cons by simp
qed

lemma exceedances_Fin:
  "exceedances (map Fin xs) (Fin t) = map (\<lambda>x. Fin (x - t)) (filter (\<lambda>x. t < x) xs)"
  by (induction xs) (simp_all add: exceedances_def fsub_def)

lemma distinct_exceedance_count:
  fixes xs :: "real list"
  assumes "distinct xs" and "0 \<le> k" and "k < int (length xs)"
  shows "length (exceedances (map Fin xs) (kth_largest (map Fin xs) (k + 1))) = nat k"
proof -
  let ?s = "sort xs"
  let ?n = "length xs"
  let ?m = "?n - 1 - nat k"
  have m: "?m < length ?s" using assms(2,3) by simp
  have t: "kth_largest (map Fin xs) (k + 1) = Fin (?s ! ?m)"
    using assms(2,3) by (simp add: kth_largest_def sort_desc_Fin rev_nth nat_less_iff)
  have "length (filter (\<lambda>x. ?s ! ?m < x) xs) = length (filter (\<lambda>x. ?s ! ?m < x) ?s)"
    by (simp add: length_filter_sort)
  also have "\<dots> = length (drop (Suc ?m) ?s)"
    using filter_above_sorted[of ?s ?m] assms(1) m by simp
  also have "\<dots> = nat k" using assms(2,3) by (simp add: nat_less_iff)
  finally show ?thesis by (simp add: t exceedances_Fin)
qed

section \<open>Expected shortfall beyond unit shape\<close>

lemma gpd_var_es_positive_shape:
  assumes "0 < s" and "alpha < 1" and "0 < alpha"
  shows "gpd_var_es (Fin t) (Fin s) (Fin sc) alpha =
           Inr (Fin (t + sc / s * ((1 / (1 - alpha)) powr s - 1)),
                fadd (Fin t)
                  (fdiv (Fin (sc / s * ((1 / (1 - alpha)) powr s - 1) + sc)) (Fin (1 - s))))"
proof -
  have b: "1 / (1 - alpha) \<noteq> 1" "0 < 1 / (1 - alpha)" using assms by simp_all
  show ?thesis
    using assms b by (simp add: gpd_var_es_def Let_def feq_def fsub_def algebra_simps)
qed

lemma es_finite_above_unit_shape:
  assumes s: "1 < s" and sc: "0 < sc" and a: "0 < alpha" "alpha < 1"
  shows "\<exists>v e. gpd_var_es (Fin t) (Fin s) (Fin sc) alpha = Inr (Fin v, Fin e) \<and> e < t \<and> t < v"
proof -
  let ?b = "1 / (1 - alpha)"
  let ?x = "sc / s * (?b powr s - 1)"
  have b1: "1 < ?b" using a by simp
  have p: "1 < ?b powr s" using b1 s by simp
  have x: "0 < ?x" using p s sc by simp
  have e: "(?x + sc) / (1 - s) < 0" using x sc s by (simp add: divide_neg_pos divide_pos_neg)
  have "gpd_var_es (Fin t) (Fin s) (Fin sc) alpha =
          Inr (Fin (t + ?x), Fin (t + (?x + sc) / (1 - s)))"
    using s a by (simp add: gpd_var_es_positive_shape)
  then show ?thesis using x e by auto
qed

lemma sibling_es_infinite:
  assumes "genpareto_fit (exceedances data threshold) = (shape, loc, scale)"
    and "fle (Fin 1) shape" and "2 \<le> length (exceedances data threshold)"
    and "confidence_level \<noteq> 1"
  shows "\<exists>var. estimate_var_es_gpd genpareto_fit data threshold confidence_level =
           Inr (var, PInf, shape, scale)"
  using assms by (simp add: estimate_var_es_gpd_def Let_def)

lemma three_ln_2_gt_1: "1 < 3 * ln (2::real)"
proof -
  have "exp (1::real) \<le> 3" by (rule exp_le)
  then have "exp (1::real) < 8" by simp
  then have "ln (exp (1::real)) < ln 8" by (subst ln_less_cancel_iff) simp_all
  then show ?thesis by (simp add: ln_small_powers)
qed

text \<open>
  Claim C1 fails on \<open>compute_gpd_risks_mle\<close>.  On the example losses with the threshold
  100 the fixed shape is \<open>3 ln 2 > 1\<close>; with a fitted scale of 1 the function returns a
  finite expected shortfall, below the threshold itself.  With threshold 0, shape 2 and
  scale 1 the formulas of lines 118-119 give VaR 199.5 and ES -200.5.
\<close>

theorem es_finite_for_shape_above_one:
  "(\<exists>v e. compute_gpd_risks_mle (constant_minimizer True (Fin 1)) zero_logpdf
             example_losses (Fin 100) GPD_ALPHA = Inr (Some (Fin v), Some (Fin e))
          \<and> e < 100 \<and> 100 < v)
   \<and> gpd_var_es (Fin 0) (Fin 2) (Fin 1) GPD_ALPHA = Inr (Fin (399 / 2), Fin (- 401 / 2))"
proof -
  have fit: "fit_gpd_mle_fixed_shape (constant_minimizer True (Fin 1)) zero_logpdf
               (exceedances example_losses (Fin 100)) (Fin (3 * ln 2)) = Some (Fin 1)"
    by (simp add: fit_gpd_mle_fixed_shape_def example_exceedances MIN_EXCEEDANCES_def
        constant_minimizer_def Let_def)
  obtain v e where ve: "gpd_var_es (Fin 100) (Fin (3 * ln 2)) (Fin 1) GPD_ALPHA = Inr (Fin v, Fin e)"
      "e < 100" "100 < v"
    using es_finite_above_unit_shape[OF three_ln_2_gt_1, of 1 GPD_ALPHA 100]
    by (auto simp: GPD_ALPHA_def)
  have "compute_gpd_risks_mle (constant_minimizer True (Fin 1)) zero_logpdf
             example_losses (Fin 100) GPD_ALPHA = Inr (Some (Fin v), Some (Fin e))"
    by (simp add: compute_gpd_risks_mle_def example_fit_inputs fit ve(1))
  moreover have "gpd_var_es (Fin 0) (Fin 2) (Fin 1) GPD_ALPHA = Inr (Fin (399 / 2), Fin (- 401 / 2))"
    by (simp add: gpd_var_es_positive_shape GPD_ALPHA_def)
  ultimately show ?thesis using ve by blast
qed

section \<open>The loss series and the per-ticker outcome\<close>

lemma flt_zero_fneg: "flt v (Fin 0) \<Longrightarrow> flt (Fin 0) (fneg v)"
  by (cases v) simp_all

lemma flt_not_NaN: "flt v w \<Longrightarrow> v \<noteq> NaN"
  by (cases v) simp_all

lemma loss_series_eq: "loss_series daily_ret = map fneg (filter (\<lambda>v. flt v (Fin 0)) daily_ret)"
proof -
  have "filter (\<lambda>v. v \<noteq> NaN) (filter (\<lambda>v. flt v (Fin 0)) daily_ret) =
        filter (\<lambda>v. flt v (Fin 0)) daily_ret"
    by (rule filter_id_conv[THEN iffD2]) (auto dest: flt_not_NaN)
  then show ?thesis by (simp add: loss_series_def)
qed

lemma loss_series_positive: "v \<in> set (loss_series daily_ret) \<Longrightarrow> flt (Fin 0) v"
  by (auto simp: loss_series_eq flt_zero_fneg)

lemma process_ticker_short:
  "length (loss_series (daily_returns df)) < 30 \<Longrightarrow>
   process_ticker minimize logpdf metadata ticker df = Insufficient_loss"
  by (simp add: process_ticker_def Let_def LOSS_THRESHOLD_def)

lemma process_ticker_recorded:
  assumes "30 \<le> length (loss_series (daily_returns df))"
  shows "\<exists>var es. process_ticker minimize logpdf metadata ticker df =
           Recorded \<lparr>Name = lookup_name metadata ticker, Ticker = ticker,
                     Average_Return = pd_mean (daily_returns df), VaR = var, ES = es\<rparr>"
proof -
  let ?losses = "loss_series (daily_returns df)"
  let ?kv = "hill_k_vals (length ?losses)"
  have two: "\<not> length ?kv < 2" using hill_k_vals_short[of "length ?losses"] assms by simp
  obtain threshold where th: "loss_threshold ?losses ?kv = Inr threshold"
    using loss_threshold_total[of ?losses] assms by auto
  have "GPD_ALPHA \<noteq> 1" by (simp add: GPD_ALPHA_def)
  then obtain var es where
    "compute_gpd_risks_mle minimize logpdf ?losses threshold GPD_ALPHA = Inr (var, es)"
    using compute_gpd_risks_mle_total by blast
  then show ?thesis
    using assms two th by (simp add: process_ticker_def Let_def LOSS_THRESHOLD_def)
qed

text \<open>
  Claim C10.  The loss series of a price frame consists of the daily percentage returns
  \<open>(close - open) / open * 100\<close> that are strictly negative, each with its sign flipped,
  so every loss is strictly positive.  The ticker is skipped for want of losses exactly
  when the series has fewer than 30 elements; with 30 or more it always yields a record.
\<close>

theorem loss_series_and_exclusion:
  "loss_series (daily_returns df) =
     map fneg (filter (\<lambda>v. flt v (Fin 0))
                (map (\<lambda>r. fmul (fdiv (fsub (Close r) (Open r)) (Open r)) (Fin 100)) df))
   \<and> (\<forall>v \<in> set (loss_series (daily_returns df)). flt (Fin 0) v)
   \<and> (process_ticker minimize logpdf metadata ticker df = Insufficient_loss \<longleftrightarrow>
        length (loss_series (daily_returns df)) < 30)
   \<and> ((\<exists>r. process_ticker minimize logpdf metadata ticker df = Recorded r \<and> Ticker r = ticker)
        \<longleftrightarrow> 30 \<le> length (loss_series (daily_returns df)))"
proof -
  have a: "loss_series (daily_returns df) =
     map fneg (filter (\<lambda>v. flt v (Fin 0))
                (map (\<lambda>r. fmul (fdiv (fsub (Close r) (Open r)) (Open r)) (Fin 100)) df))"
    by (simp add: loss_series_eq daily_returns_def)
  have b: "\<forall>v \<in> set (loss_series (daily_returns df)). flt (Fin 0) v"
    using loss_series_positive by blast
  show ?thesis
  proof (cases "length (loss_series (daily_returns df)) < 30")
    case True
    then show ?thesis
      using a b process_ticker_short[of df minimize logpdf metadata ticker] by simp
  next
    case False
    then obtain var es where "process_ticker minimize logpdf metadata ticker df =
           Recorded \<lparr>Name = lookup_name metadata ticker, Ticker = ticker,
                     Average_Return = pd_mean (daily_returns df), VaR = var, ES = es\<rparr>"
      using process_ticker_recorded[of df minimize logpdf metadata ticker] by auto
    then show ?thesis using a b False by simp
  qed
qed

lemma falling_losses: "loss_series (daily_returns (falling_prices n)) = replicate n (Fin 1)"
  by (simp add: loss_series_def daily_returns_def falling_prices_def fsub_def)

text \<open>Twenty-nine and thirty days that each close one percent below the open.\<close>

theorem loss_series_and_exclusion_witness:
  "loss_series (daily_returns (falling_prices 30)) = replicate 30 (Fin 1)
   \<and> process_ticker (constant_minimizer True (Fin 1)) zero_logpdf [] ''T'' (falling_prices 29)
       = Insufficient_loss
   \<and> (\<exists>r. process_ticker (constant_minimizer True (Fin 1)) zero_logpdf [] ''T''
             (falling_prices 30) = Recorded r \<and> Ticker r = ''T'')"
  using loss_series_and_exclusion[of "falling_prices 29" "constant_minimizer True (Fin 1)"
          zero_logpdf "[]" "''T''"]
        loss_series_and_exclusion[of "falling_prices 30" "constant_minimizer True (Fin 1)"
          zero_logpdf "[]" "''T''"]
  by (simp add: falling_losses)

text \<open>When every ticker is skipped the summary is the empty table.\<close>

lemma compute_risks_all_skipped:
  assumes "\<And>ticker df. (ticker, df) \<in> set prices \<Longrightarrow> length (loss_series (daily_returns df)) < 30"
  shows "compute_risks minimize logpdf prices metadata = Inr []"
proof -
  have "concat (map (\<lambda>(ticker, df).
                       case process_ticker minimize logpdf metadata ticker df of
                         Recorded r \<Rightarrow> [r]
                       | _ \<Rightarrow> [])
                    prices) = []"
    using assms by (auto simp: process_ticker_short)
  then show ?thesis by (simp add: compute_risks_def rank_summary_def)
qed

section \<open>Ranking\<close>

lemma flt_trans: "flt a b \<Longrightarrow> flt b c \<Longrightarrow> flt a c"
  by (cases a; cases b; cases c) simp_all

lemma length_filter_disjoint_le:
  assumes "\<And>x. x \<in> set xs \<Longrightarrow> P x \<Longrightarrow> \<not> Q x"
    and "\<And>x. x \<in> set xs \<Longrightarrow> P x \<or> Q x \<Longrightarrow> R x"
  shows "length (filter P xs) + length (filter Q xs) \<le> length (filter R xs)"
  using assms by (induction xs) auto

lemma length_filter_mem_pos: "x \<in> set xs \<Longrightarrow> P x \<Longrightarrow> 0 < length (filter P xs)"
  by (induction xs) auto

lemma average_rank_less:
  fixes la ea lb eb :: nat
  assumes "la + ea \<le> lb" and "0 < ea"
  shows "real la + (real ea + 1) / 2 < real lb + (real eb + 1) / 2"
proof -
  have "real la + real ea \<le> real lb" using assms(1) by linarith
  moreover have "1 \<le> real ea" using assms(2) by simp
  moreover have "0 \<le> real eb" by simp
  ultimately show ?thesis by argo
qed

lemma length_pd_rank: "length (pd_rank asc col) = length col"
  by (simp add: pd_rank_def Let_def)

lemma pd_rank_nth_valid:
  assumes "i < length col" and "col ! i \<noteq> NaN"
  shows "pd_rank asc col ! i =
           real (length (filter (\<lambda>w. if asc then flt w (col ! i) else flt (col ! i) w)
                                (filter (\<lambda>v. v \<noteq> NaN) col)))
           + (real (length (filter (\<lambda>w. w = col ! i) (filter (\<lambda>v. v \<noteq> NaN) col))) + 1) / 2"
  using assms by (simp add: pd_rank_def Let_def)

lemma pd_rank_nth_missing:
  assumes "i < length col" and "col ! i = NaN"
  shows "pd_rank asc col ! i =
           real (length (filter (\<lambda>v. v \<noteq> NaN) col))
           + (real (length col - length (filter (\<lambda>v. v \<noteq> NaN) col)) + 1) / 2"
  using assms by (simp add: pd_rank_def Let_def)

text \<open>Ascending ranks grow with the value, descending ranks fall with it.\<close>

lemma pd_rank_ascending:
  assumes i: "i < length col" and j: "j < length col" and lt: "flt (col ! i) (col ! j)"
  shows "pd_rank True col ! i < pd_rank True col ! j"
proof -
  let ?valid = "filter (\<lambda>v. v \<noteq> NaN) col"
  let ?a = "col ! i" and ?b = "col ! j"
  have na: "?a \<noteq> NaN" "?b \<noteq> NaN" using lt by (cases ?a; cases ?b; simp)+
  have mem: "?a \<in> set ?valid" "?b \<in> set ?valid" using i j na by simp_all
  have d: "length (filter (\<lambda>w. flt w ?a) ?valid) + length (filter (\<lambda>w. w = ?a) ?valid)
            \<le> length (filter (\<lambda>w. flt w ?b) ?valid)"
    by (rule length_filter_disjoint_le) (auto simp: flt_irrefl lt intro: flt_trans[OF _ lt])
  have ea: "0 < length (filter (\<lambda>w. w = ?a) ?valid)"
    using mem(1) by (rule length_filter_mem_pos) simp
  have "real (length (filter (\<lambda>w. flt w ?a) ?valid))
          + (real (length (filter (\<lambda>w. w = ?a) ?valid)) + 1) / 2
        < real (length (filter (\<lambda>w. flt w ?b) ?valid))
          + (real (length (filter (\<lambda>w. w = ?b) ?valid)) + 1) / 2"
    using d ea by (rule average_rank_less)
  moreover have "pd_rank True col ! i = real (length (filter (\<lambda>w. flt w ?a) ?valid))
          + (real (length (filter (\<lambda>w. w = ?a) ?valid)) + 1) / 2"
    using pd_rank_nth_valid[OF i na(1), of True] by simp
  moreover have "pd_rank True col ! j = real (length (filter (\<lambda>w. flt w ?b) ?valid))
          + (real (length (filter (\<lambda>w. w = ?b) ?valid)) + 1) / 2"
    using pd_rank_nth_valid[OF j na(2), of True] by simp
  ultimately show ?thesis by simp
qed

lemma pd_rank_descending:
  assumes i: "i < length col" and j: "j < length col" and lt: "flt (col ! j) (col ! i)"
  shows "pd_rank False col ! i < pd_rank False col ! j"
proof -
  let ?valid = "filter (\<lambda>v. v \<noteq> NaN) col"
  let ?a = "col ! i" and ?b = "col ! j"
  have na: "?a \<noteq> NaN" "?b \<noteq> NaN" using lt by (cases ?a; cases ?b; simp)+
  have mem: "?a \<in> set ?valid" "?b \<in> set ?valid" using i j na by simp_all
  have d: "length (filter (\<lambda>w. flt ?a w) ?valid) + length (filter (\<lambda>w. w = ?a) ?valid)
            \<le> length (filter (\<lambda>w. flt ?b w) ?valid)"
    by (rule length_filter_disjoint_le) (auto simp: flt_irrefl lt intro: flt_trans[OF lt])
  have ea: "0 < length (filter (\<lambda>w. w = ?a) ?valid)"
    using mem(1) by (rule length_filter_mem_pos) simp
  have "real (length (filter (\<lambda>w. flt ?a w) ?valid))
          + (real (length (filter (\<lambda>w. w = ?a) ?valid)) + 1) / 2
        < real (length (filter (\<lambda>w. flt ?b w) ?valid))
          + (real (length (filter (\<lambda>w. w = ?b) ?valid)) + 1) / 2"
    using d ea by (rule average_rank_less)
  moreover have "pd_rank False col ! i = real (length (filter (\<lambda>w. flt ?a w) ?valid))
          + (real (length (filter (\<lambda>w. w = ?a) ?valid)) + 1) / 2"
    using pd_rank_nth_valid[OF i na(1), of False] by simp
  moreover have "pd_rank False col ! j = real (length (filter (\<lambda>w. flt ?b w) ?valid))
          + (real (length (filter (\<lambda>w. w = ?b) ?valid)) + 1) / 2"
    using pd_rank_nth_valid[OF j na(2), of False] by simp
  ultimately show ?thesis by simp
qed

text \<open>A missing value ranks after every value that is present, in both directions.\<close>

lemma pd_rank_missing_last:
  assumes i: "i < length col" and j: "j < length col"
    and a: "col ! i \<noteq> NaN" and b: "col ! j = NaN"
  shows "pd_rank asc col ! i < pd_rank asc col ! j"
proof -
  let ?valid = "filter (\<lambda>v. v \<noteq> NaN) col"
  let ?a = "col ! i"
  let ?P = "\<lambda>w. if asc then flt w ?a else flt ?a w"
  have mem: "?a \<in> set ?valid" using i a by simp
  have "length (filter ?P ?valid) + length (filter (\<lambda>w. w = ?a) ?valid)
          \<le> length (filter (\<lambda>w. True) ?valid)"
    by (rule length_filter_disjoint_le) (auto simp: flt_irrefl)
  then have d: "length (filter ?P ?valid) + length (filter (\<lambda>w. w = ?a) ?valid) \<le> length ?valid"
    by simp
  have ea: "0 < length (filter (\<lambda>w. w = ?a) ?valid)"
    using mem by (rule length_filter_mem_pos) simp
  have "real (length (filter ?P ?valid)) + (real (length (filter (\<lambda>w. w = ?a) ?valid)) + 1) / 2
        < real (length ?valid) + (real (length col - length ?valid) + 1) / 2"
    using d ea by (rule average_rank_less)
  then show ?thesis
    unfolding pd_rank_nth_valid[OF i a] pd_rank_nth_missing[OF j b] .
qed

lemma astype_Int64_Inr:
  assumes "astype_Int64 xs = Inr ys"
  shows "length ys = length xs"
    and "\<And>i. i < length xs \<Longrightarrow> \<exists>n. ys ! i = Some n \<and> xs ! i = of_int n"
proof -
  have all: "list_all (\<lambda>v. v = of_int \<lfloor>v\<rfloor>) xs" and ys: "ys = map (\<lambda>v. Some \<lfloor>v\<rfloor>) xs"
    using assms by (auto simp: astype_Int64_def split: if_splits)
  show "length ys = length xs" using ys by simp
  fix i assume "i < length xs"
  then show "\<exists>n. ys ! i = Some n \<and> xs ! i = of_int n"
    using all ys by (auto simp: list_all_length)
qed

lemma astype_Int64_less:
  assumes "astype_Int64 xs = Inr ys" and "i < length xs" and "j < length xs"
    and "xs ! i < xs ! j"
  shows "\<exists>a b. ys ! i = Some a \<and> ys ! j = Some b \<and> a < b"
proof -
  obtain a where a: "ys ! i = Some a" "xs ! i = of_int a"
    using astype_Int64_Inr(2)[OF assms(1,2)] by blast
  obtain b where b: "ys ! j = Some b" "xs ! j = of_int b"
    using astype_Int64_Inr(2)[OF assms(1,3)] by blast
  have "a < b" using assms(4) a(2) b(2) by simp
  then show ?thesis using a b by blast
qed

text \<open>The ranking evaluated on the three example tables.\<close>

lemma example_ranks:
  "rank_summary example_records =
     Inr [\<lparr>risk = example_records ! 0, Average_Return_Rank = Some 1, VaR_Rank = Some 2, ES_Rank = Some 2\<rparr>,
          \<lparr>risk = example_records ! 1, Average_Return_Rank = Some 3, VaR_Rank = Some 3, ES_Rank = Some 3\<rparr>,
          \<lparr>risk = example_records ! 2, Average_Return_Rank = Some 2, VaR_Rank = Some 1, ES_Rank = Some 1\<rparr>]"
  by (simp add: rank_summary_def example_records_def pd_rank_def astype_Int64_def column_def Let_def)

lemma two_failed_ranks: "rank_summary records_two_failed = Inl TypeError"
  by (simp add: rank_summary_def records_two_failed_def pd_rank_def astype_Int64_def column_def Let_def)

lemma one_failed_ranks:
  "rank_summary records_one_failed =
     Inr [\<lparr>risk = records_one_failed ! 0, Average_Return_Rank = Some 1, VaR_Rank = Some 2, ES_Rank = Some 2\<rparr>,
          \<lparr>risk = records_one_failed ! 1, Average_Return_Rank = Some 3, VaR_Rank = Some 3, ES_Rank = Some 3\<rparr>,
          \<lparr>risk = records_one_failed ! 2, Average_Return_Rank = Some 2, VaR_Rank = Some 1, ES_Rank = Some 1\<rparr>]"
  by (simp add: rank_summary_def records_one_failed_def pd_rank_def astype_Int64_def column_def Let_def)

lemma column_nth:
  "i < length vs \<Longrightarrow> column vs ! i = (case vs ! i of None \<Rightarrow> NaN | Some w \<Rightarrow> w)"
  by (simp add: column_def)

lemma rank_summary_Inr:
  assumes "rank_summary records = Inr rows"
  shows "\<exists>ar vr er.
           astype_Int64 (pd_rank True (map Average_Return records)) = Inr ar
         \<and> astype_Int64 (pd_rank False (column (map VaR records))) = Inr vr
         \<and> astype_Int64 (pd_rank False (column (map ES records))) = Inr er
         \<and> length rows = length records
         \<and> (\<forall>i<length records.
                rows ! i = \<lparr>risk = records ! i, Average_Return_Rank = ar ! i,
                            VaR_Rank = vr ! i, ES_Rank = er ! i\<rparr>)"
proof (cases "records = []")
  case True
  then show ?thesis
    using assms by (simp add: rank_summary_def pd_rank_def column_def astype_Int64_def)
next
  case False
  obtain ar where ar: "astype_Int64 (pd_rank True (map Average_Return records)) = Inr ar"
    using assms False by (auto simp: rank_summary_def split: sum.splits)
  obtain vr where vr: "astype_Int64 (pd_rank False (column (map VaR records))) = Inr vr"
    using assms False ar by (auto simp: rank_summary_def split: sum.splits)
  obtain er where er: "astype_Int64 (pd_rank False (column (map ES records))) = Inr er"
    using assms False ar vr by (auto simp: rank_summary_def split: sum.splits)
  have rows: "rows = map (\<lambda>(r, a, v, e).
                    \<lparr>risk = r, Average_Return_Rank = a, VaR_Rank = v, ES_Rank = e\<rparr>)
                  (zip records (zip ar (zip vr er)))"
    using assms False ar vr er by (simp add: rank_summary_def)
  have la: "length ar = length records"
    using astype_Int64_Inr(1)[OF ar] by (simp add: length_pd_rank)
  have lv: "length vr = length records"
    using astype_Int64_Inr(1)[OF vr] by (simp add: length_pd_rank column_def)
  have le: "length er = length records"
    using astype_Int64_Inr(1)[OF er] by (simp add: length_pd_rank column_def)
  have "length rows = length records" using rows la lv le by simp
  moreover have "\<forall>i<length records.
      rows ! i = \<lparr>risk = records ! i, Average_Return_Rank = ar ! i,
                  VaR_Rank = vr ! i, ES_Rank = er ! i\<rparr>"
    using rows la lv le by simp
  ultimately show ?thesis using ar vr er by blast
qed

text \<open>
  Claim C7, as amended.  Whenever the ranking returns a table, it has one row per record,
  \<open>Average_Return_Rank\<close> is ascending (a smaller average return has a smaller rank) and
  \<open>VaR_Rank\<close> and \<open>ES_Rank\<close> are descending (a larger risk value has a smaller rank).  For
  three records with Average_Return 1, 3, 2, VaR 5, 2, 8 and ES 4, 1, 9 the ranks are
  Average_Return_Rank 1, 3, 2, VaR_Rank 2, 3, 1 and ES_Rank 2, 3, 1.
\<close>

theorem rank_directions:
  "(rank_summary records = Inr rows \<longrightarrow>
      length rows = length records
      \<and> (\<forall>i<length records. \<forall>j<length records.
            risk (rows ! i) = records ! i
          \<and> (flt (Average_Return (records ! i)) (Average_Return (records ! j)) \<longrightarrow>
               (\<exists>a b. Average_Return_Rank (rows ! i) = Some a
                     \<and> Average_Return_Rank (rows ! j) = Some b \<and> a < b))
          \<and> (\<forall>x y. VaR (records ! i) = Some x \<longrightarrow> VaR (records ! j) = Some y \<longrightarrow> flt y x \<longrightarrow>
               (\<exists>a b. VaR_Rank (rows ! i) = Some a \<and> VaR_Rank (rows ! j) = Some b \<and> a < b))
          \<and> (\<forall>x y. ES (records ! i) = Some x \<longrightarrow> ES (records ! j) = Some y \<longrightarrow> flt y x \<longrightarrow>
               (\<exists>a b. ES_Rank (rows ! i) = Some a \<and> ES_Rank (rows ! j) = Some b \<and> a < b))))
   \<and> map_sum id (map (\<lambda>r. (Average_Return_Rank r, VaR_Rank r, ES_Rank r)))
        (rank_summary example_records) =
       Inr [(Some 1, Some 2, Some 2), (Some 3, Some 3, Some 3), (Some 2, Some 1, Some 1)]"
proof -
  have general: "length rows = length records
      \<and> (\<forall>i<length records. \<forall>j<length records.
            risk (rows ! i) = records ! i
          \<and> (flt (Average_Return (records ! i)) (Average_Return (records ! j)) \<longrightarrow>
               (\<exists>a b. Average_Return_Rank (rows ! i) = Some a
                     \<and> Average_Return_Rank (rows ! j) = Some b \<and> a < b))
          \<and> (\<forall>x y. VaR (records ! i) = Some x \<longrightarrow> VaR (records ! j) = Some y \<longrightarrow> flt y x \<longrightarrow>
               (\<exists>a b. VaR_Rank (rows ! i) = Some a \<and> VaR_Rank (rows ! j) = Some b \<and> a < b))
          \<and> (\<forall>x y. ES (records ! i) = Some x \<longrightarrow> ES (records ! j) = Some y \<longrightarrow> flt y x \<longrightarrow>
               (\<exists>a b. ES_Rank (rows ! i) = Some a \<and> ES_Rank (rows ! j) = Some b \<and> a < b)))"
    if ok: "rank_summary records = Inr rows"
  proof -
    obtain ar vr er where
      ar: "astype_Int64 (pd_rank True (map Average_Return records)) = Inr ar" and
      vr: "astype_Int64 (pd_rank False (column (map VaR records))) = Inr vr" and
      er: "astype_Int64 (pd_rank False (column (map ES records))) = Inr er" and
      len: "length rows = length records" and
      row: "\<And>i. i < length records \<Longrightarrow>
              rows ! i = \<lparr>risk = records ! i, Average_Return_Rank = ar ! i,
                          VaR_Rank = vr ! i, ES_Rank = er ! i\<rparr>"
      using rank_summary_Inr[OF ok] by blast
    have "risk (rows ! i) = records ! i
          \<and> (flt (Average_Return (records ! i)) (Average_Return (records ! j)) \<longrightarrow>
               (\<exists>a b. Average_Return_Rank (rows ! i) = Some a
                     \<and> Average_Return_Rank (rows ! j) = Some b \<and> a < b))
          \<and> (\<forall>x y. VaR (records ! i) = Some x \<longrightarrow> VaR (records ! j) = Some y \<longrightarrow> flt y x \<longrightarrow>
               (\<exists>a b. VaR_Rank (rows ! i) = Some a \<and> VaR_Rank (rows ! j) = Some b \<and> a < b))
          \<and> (\<forall>x y. ES (records ! i) = Some x \<longrightarrow> ES (records ! j) = Some y \<longrightarrow> flt y x \<longrightarrow>
               (\<exists>a b. ES_Rank (rows ! i) = Some a \<and> ES_Rank (rows ! j) = Some b \<and> a < b))"
      if i: "i < length records" and j: "j < length records" for i j
    proof -
      have avg: "\<exists>a b. ar ! i = Some a \<and> ar ! j = Some b \<and> a < b"
        if "flt (Average_Return (records ! i)) (Average_Return (records ! j))"
      proof -
        have "pd_rank True (map Average_Return records) ! i
              < pd_rank True (map Average_Return records) ! j"
          by (rule pd_rank_ascending) (use i j that in simp_all)
        then show ?thesis
          using astype_Int64_less[OF ar, of i j] i j by (simp add: length_pd_rank)
      qed
      have var: "\<exists>a b. vr ! i = Some a \<and> vr ! j = Some b \<and> a < b"
        if "VaR (records ! i) = Some x" "VaR (records ! j) = Some y" "flt y x" for x y
      proof -
        have "pd_rank False (column (map VaR records)) ! i
              < pd_rank False (column (map VaR records)) ! j"
          by (rule pd_rank_descending) (use i j that in \<open>simp_all add: column_def\<close>)
        then show ?thesis
          using astype_Int64_less[OF vr, of i j] i j by (simp add: length_pd_rank column_def)
      qed
      have es: "\<exists>a b. er ! i = Some a \<and> er ! j = Some b \<and> a < b"
        if "ES (records ! i) = Some x" "ES (records ! j) = Some y" "flt y x" for x y
      proof -
        have "pd_rank False (column (map ES records)) ! i
              < pd_rank False (column (map ES records)) ! j"
          by (rule pd_rank_descending) (use i j that in \<open>simp_all add: column_def\<close>)
        then show ?thesis
          using astype_Int64_less[OF er, of i j] i j by (simp add: length_pd_rank column_def)
      qed
      show ?thesis using avg var es by (simp add: row[OF i] row[OF j])
    qed
    then show ?thesis using len by blast
  qed
  have example: "map_sum id (map (\<lambda>r. (Average_Return_Rank r, VaR_Rank r, ES_Rank r)))
        (rank_summary example_records) =
       Inr [(Some 1, Some 2, Some 2), (Some 3, Some 3, Some 3), (Some 2, Some 1, Some 1)]"
    by (simp add: example_ranks)
  show ?thesis using general example by blast
qed

text \<open>The three records of the example, row by row.\<close>

theorem rank_directions_witness:
  "rank_summary example_records =
     Inr [\<lparr>risk = example_records ! 0, Average_Return_Rank = Some 1, VaR_Rank = Some 2, ES_Rank = Some 2\<rparr>,
          \<lparr>risk = example_records ! 1, Average_Return_Rank = Some 3, VaR_Rank = Some 3, ES_Rank = Some 3\<rparr>,
          \<lparr>risk = example_records ! 2, Average_Return_Rank = Some 2, VaR_Rank = Some 1, ES_Rank = Some 1\<rparr>]
   \<and> map_sum id (map (\<lambda>r. (Average_Return_Rank r, VaR_Rank r, ES_Rank r)))
        (rank_summary example_records) =
       Inr [(Some 1, Some 2, Some 2), (Some 3, Some 3, Some 3), (Some 2, Some 1, Some 1)]"
  using rank_directions[of example_records
      "[\<lparr>risk = example_records ! 0, Average_Return_Rank = Some 1, VaR_Rank = Some 2, ES_Rank = Some 2\<rparr>,
        \<lparr>risk = example_records ! 1, Average_Return_Rank = Some 3, VaR_Rank = Some 3, ES_Rank = Some 3\<rparr>,
        \<lparr>risk = example_records ! 2, Average_Return_Rank = Some 2, VaR_Rank = Some 1, ES_Rank = Some 1\<rparr>]"]
    example_ranks
  by simp

text \<open>
  The ES ranks of the example are 2, 3, 1 (ES 9 is the largest and ranks first), not the
  2, 1, 3 of claim C7 as stated.
\<close>

theorem es_rank_example_differs:
  "map_sum id (map ES_Rank) (rank_summary example_records) \<noteq> Inr [Some 2, Some 1, Some 3]"
  by (simp add: example_ranks)

section \<open>Tickers whose fit fails\<close>

lemma compute_gpd_risks_mle_fit_failure:
  assumes "\<And>f x0 b. \<not> opt_success (minimize f x0 b)"
  shows "compute_gpd_risks_mle minimize logpdf data threshold alpha = Inr (None, None)"
proof (cases "length (exceedances data threshold) \<le> 16")
  case True
  then show ?thesis by (simp add: compute_gpd_risks_mle_def gpd_fit_inputs_none)
next
  case False
  then obtain shape where
    "gpd_fit_inputs data threshold = Inr (Some (exceedances data threshold, shape))"
    using gpd_fit_inputs_some[of data threshold] by auto
  then show ?thesis
    using assms by (simp add: compute_gpd_risks_mle_def fit_gpd_mle_fixed_shape_def Let_def)
qed

text \<open>A ticker with enough losses whose fit does not converge keeps its row, with VaR
  and ES empty.\<close>

lemma process_ticker_fit_failure:
  assumes "30 \<le> length (loss_series (daily_returns df))"
    and "\<And>f x0 b. \<not> opt_success (minimize f x0 b)"
  shows "process_ticker minimize logpdf metadata ticker df =
           Recorded \<lparr>Name = lookup_name metadata ticker, Ticker = ticker,
                     Average_Return = pd_mean (daily_returns df), VaR = None, ES = None\<rparr>"
proof -
  let ?losses = "loss_series (daily_returns df)"
  let ?kv = "hill_k_vals (length ?losses)"
  have two: "\<not> length ?kv < 2" using hill_k_vals_short[of "length ?losses"] assms(1) by simp
  obtain threshold where th: "loss_threshold ?losses ?kv = Inr threshold"
    using loss_threshold_total[of ?losses] assms(1) by auto
  show ?thesis
    using assms(1) two th compute_gpd_risks_mle_fit_failure[of minimize, OF assms(2)]
    by (simp add: process_ticker_def Let_def LOSS_THRESHOLD_def)
qed

text \<open>With one failed fit among three tickers the ranking succeeds and the failed ticker
  ranks last for VaR and ES.\<close>

lemma one_failed_bottom:
  "map_sum id (map (\<lambda>r. (VaR (risk r), VaR_Rank r, ES_Rank r))) (rank_summary records_one_failed) =
     Inr [(Some (Fin 5), Some 2, Some 2), (None, Some 3, Some 3), (Some (Fin 8), Some 1, Some 1)]"
  unfolding one_failed_ranks by (simp add: records_one_failed_def)

text \<open>
  Claim C8 fails on the ranking of lines 155-157.  With two failed fits among three
  tickers the two missing VaR values tie for the positions 2 and 3, \<open>rank\<close> gives both the
  average 2.5, and \<open>astype('Int64')\<close> raises TypeError: no table is returned.
\<close>

theorem ranking_raises_on_two_missing:
  "pd_rank False (column (map VaR records_two_failed)) = [1, 5 / 2, 5 / 2]
   \<and> astype_Int64 [1, 5 / 2, 5 / 2] = Inl TypeError
   \<and> rank_summary records_two_failed = Inl TypeError"
  by (simp add: two_failed_ranks)
     (simp add: records_two_failed_def pd_rank_def astype_Int64_def column_def Let_def)

end
